theory Spec2Isabelle
  imports Complex_Main "HOL-Library.Sublist"
begin

section \<open>JavaScript values\<close>

text \<open>
  The server keeps its session in a plain object whose six properties hold whatever
  value a JSON request body carried. A number is modelled by its mathematical value
  (every finite double is a rational); \<open>NaN\<close> and the two infinities are separate
  constructors, since \<open>undefined\<close> converts to \<open>NaN\<close> and an over-long JSON literal
  parses to an infinity.
\<close>

datatype jsnum = NaN | NegInf | Fin rat | PosInf

datatype jsval =
    JUndefined
  | JNull
  | JBool bool
  | JNum jsnum
  | JStr string
  | JArr "jsval list"
  | JObj "(string \<times> jsval) list"

text \<open>The relational comparison of two numbers: any comparison with \<open>NaN\<close> is false.\<close>

fun num_lt :: "jsnum \<Rightarrow> jsnum \<Rightarrow> bool" where
  "num_lt NaN y = False"
| "num_lt x NaN = False"
| "num_lt (Fin a) (Fin b) = (a < b)"
| "num_lt NegInf NegInf = False"
| "num_lt NegInf y = True"
| "num_lt x NegInf = False"
| "num_lt PosInf y = False"
| "num_lt x PosInf = True"

text \<open>
  \<open>ToNumber\<close> on the primitive values that need no parsing. The conversion of a
  string, an array or an object is the JavaScript runtime's; it is taken as the
  parameter \<open>conv\<close>.
\<close>

fun ToNumber :: "(jsval \<Rightarrow> jsnum) \<Rightarrow> jsval \<Rightarrow> jsnum" where
  "ToNumber conv JUndefined = NaN"
| "ToNumber conv JNull = Fin 0"
| "ToNumber conv (JBool b) = Fin (if b then 1 else 0)"
| "ToNumber conv (JNum n) = n"
| "ToNumber conv v = conv v"

text \<open>\<open>v < k\<close> and \<open>v > k\<close> for a numeric literal \<open>k\<close>: both sides are converted to numbers.\<close>

definition js_lt :: "(jsval \<Rightarrow> jsnum) \<Rightarrow> jsval \<Rightarrow> rat \<Rightarrow> bool" where
  "js_lt conv v k = num_lt (ToNumber conv v) (Fin k)"

definition js_gt :: "(jsval \<Rightarrow> jsnum) \<Rightarrow> jsval \<Rightarrow> rat \<Rightarrow> bool" where
  "js_gt conv v k = num_lt (Fin k) (ToNumber conv v)"

text \<open>Truthiness, as tested by \<open>if (x)\<close>.\<close>

fun truthy :: "jsval \<Rightarrow> bool" where
  "truthy JUndefined = False"
| "truthy JNull = False"
| "truthy (JBool b) = b"
| "truthy (JNum NaN) = False"
| "truthy (JNum (Fin q)) = (q \<noteq> 0)"
| "truthy (JNum n) = True"
| "truthy (JStr s) = (s \<noteq> [])"
| "truthy (JArr xs) = True"
| "truthy (JObj kvs) = True"

text \<open>
  A parsed request body: the properties of the JSON object. Destructuring a property
  that the body does not have gives \<open>undefined\<close>.
\<close>

type_synonym body = "string \<Rightarrow> jsval option"

definition getProp :: "body \<Rightarrow> string \<Rightarrow> jsval" where
  "getProp b k = (case b k of None \<Rightarrow> JUndefined | Some v \<Rightarrow> v)"

section \<open>The session store\<close>

record session =
  currentSide :: jsval
  currentTrackId :: jsval
  currentTime :: jsval
  volume :: jsval
  tapeMode :: jsval
  isPlaying :: jsval

definition defaultSession :: session where
  "defaultSession =
     \<lparr> currentSide = JStr ''A'', currentTrackId = JNull, currentTime = JNum (Fin 0),
       volume = JNum (Fin 75), tapeMode = JBool True, isPlaying = JBool False \<rparr>"


section \<open>Strings and paths\<close>

text \<open>
  A string is the list of the bytes of its UTF-8 encoding. The functions below are the
  library functions the scanner calls, on the inputs it gives them: names returned by a
  directory listing, which have no path separator. The two case conversions change
  the letters A to Z and a to z only; the program compares their results with the
  allow-list of extensions and with the side letters only, and no other letter converts
  to a character of these.
\<close>

definition digit :: "nat \<Rightarrow> char" where
  "digit n = ''0123456789'' ! n"

text \<open>The decimal numeral that a template literal prints for a non-negative integer.\<close>

fun string_of_nat :: "nat \<Rightarrow> string" where
  "string_of_nat n =
     (if n < 10 then [digit n] else string_of_nat (n div 10) @ [digit (n mod 10)])"

declare string_of_nat.simps [simp del]

definition toLowerChar :: "char \<Rightarrow> char" where
  "toLowerChar c =
     (case map_of (zip ''ABCDEFGHIJKLMNOPQRSTUVWXYZ'' ''abcdefghijklmnopqrstuvwxyz'') c of
        None \<Rightarrow> c | Some d \<Rightarrow> d)"

definition toUpperChar :: "char \<Rightarrow> char" where
  "toUpperChar c =
     (case map_of (zip ''abcdefghijklmnopqrstuvwxyz'' ''ABCDEFGHIJKLMNOPQRSTUVWXYZ'') c of
        None \<Rightarrow> c | Some d \<Rightarrow> d)"

definition toLowerCase :: "string \<Rightarrow> string" where
  "toLowerCase s = map toLowerChar s"

definition toUpperCase :: "string \<Rightarrow> string" where
  "toUpperCase s = map toUpperChar s"

text \<open>
  The white space and line terminators that \<open>String.prototype.trim\<close> removes, each as
  its UTF-8 bytes: U+0009 to U+000D, U+0020, U+00A0, U+1680, U+2000 to U+200A, U+2028,
  U+2029, U+202F, U+205F, U+3000 and U+FEFF.
\<close>

definition whiteSpaces :: "string list" where
  "whiteSpaces =
     [[CHR 0x09], [CHR 0x0A], [CHR 0x0B], [CHR 0x0C], [CHR 0x0D], [CHR 0x20],
      [CHR 0xC2, CHR 0xA0], [CHR 0xE1, CHR 0x9A, CHR 0x80],
      [CHR 0xE2, CHR 0x80, CHR 0x80], [CHR 0xE2, CHR 0x80, CHR 0x81],
      [CHR 0xE2, CHR 0x80, CHR 0x82], [CHR 0xE2, CHR 0x80, CHR 0x83],
      [CHR 0xE2, CHR 0x80, CHR 0x84], [CHR 0xE2, CHR 0x80, CHR 0x85],
      [CHR 0xE2, CHR 0x80, CHR 0x86], [CHR 0xE2, CHR 0x80, CHR 0x87],
      [CHR 0xE2, CHR 0x80, CHR 0x88], [CHR 0xE2, CHR 0x80, CHR 0x89],
      [CHR 0xE2, CHR 0x80, CHR 0x8A], [CHR 0xE2, CHR 0x80, CHR 0xA8],
      [CHR 0xE2, CHR 0x80, CHR 0xA9], [CHR 0xE2, CHR 0x80, CHR 0xAF],
      [CHR 0xE2, CHR 0x81, CHR 0x9F], [CHR 0xE3, CHR 0x80, CHR 0x80],
      [CHR 0xEF, CHR 0xBB, CHR 0xBF]]"

text \<open>Removes, from the start of \<open>s\<close>, every leading occurrence of one of the sequences \<open>ws\<close>.\<close>

function stripPrefixes :: "string list \<Rightarrow> string \<Rightarrow> string" where
  "stripPrefixes ws s =
     (case List.find (\<lambda>w. w \<noteq> [] \<and> prefix w s) ws of
        None \<Rightarrow> s
      | Some w \<Rightarrow> stripPrefixes ws (drop (length w) s))"
  by pat_completeness auto
termination
  by (relation "measure (\<lambda>(ws, s). length s)") (auto simp add: find_Some_iff prefix_def)

declare stripPrefixes.simps [simp del]

definition trimStart :: "string \<Rightarrow> string" where
  "trimStart s = stripPrefixes whiteSpaces s"

definition trimEnd :: "string \<Rightarrow> string" where
  "trimEnd s = rev (stripPrefixes (map rev whiteSpaces) (rev s))"

text \<open>\<open>String.prototype.trim\<close>.\<close>

definition trim :: "string \<Rightarrow> string" where
  "trim s = trimEnd (trimStart s)"

text \<open>\<open>s.replace(/c/g, d)\<close> for single characters \<open>c\<close> and \<open>d\<close>.\<close>

definition replaceAll :: "char \<Rightarrow> char \<Rightarrow> string \<Rightarrow> string" where
  "replaceAll c d s = map (\<lambda>x. if x = c then d else x) s"

text \<open>
  \<open>path.extname\<close> of an entry name: the part from the last dot on; empty when the name
  has no dot, when its only dot is the first character, and for the name \<open>..\<close>.
\<close>

definition extname :: "string \<Rightarrow> string" where
  "extname f =
     (let after = takeWhile (\<lambda>c. c \<noteq> CHR ''.'') (rev f) in
      if length after = length f then []
      else let startDot = length f - length after - 1 in
        if startDot = 0 \<or> f = ''..'' then [] else drop startDot f)"

text \<open>\<open>path.basename(f, ext)\<close> of an entry name: the name without the suffix \<open>ext\<close>.\<close>

definition basename :: "string \<Rightarrow> string \<Rightarrow> string" where
  "basename f ext =
     (if ext \<noteq> [] \<and> length ext \<le> length f then
        (if ext = f then []
         else if suffix ext f then take (length f - length ext) f
         else f)
      else f)"

text \<open>\<open>path.join(dir, name)\<close> for an entry name.\<close>

definition path_join :: "string \<Rightarrow> string \<Rightarrow> string" where
  "path_join dir name = dir @ ''/'' @ name"

text \<open>\<open>encodeURIComponent\<close>: every byte outside the unreserved set becomes \<open>%XX\<close>.\<close>

definition unreserved :: "char \<Rightarrow> bool" where
  "unreserved c =
     (c \<in> set (''ABCDEFGHIJKLMNOPQRSTUVWXYZabcdefghijklmnopqrstuvwxyz0123456789-_.!~*()''
               @ [CHR 0x27]))"

definition hexDigit :: "nat \<Rightarrow> char" where
  "hexDigit n = ''0123456789ABCDEF'' ! n"

definition encodeURIComponent :: "string \<Rightarrow> string" where
  "encodeURIComponent s =
     concat (map (\<lambda>c. if unreserved c then [c]
                       else [CHR ''%'', hexDigit (of_char c div 16), hexDigit (of_char c mod 16)]) s)"

section \<open>The environment of the server\<close>

datatype error = FsError | ParseError

text \<open>\<open>metadata.common\<close> as the tag parser returns it; a missing tag is \<open>None\<close>.\<close>

record common =
  tag_title :: "string option"
  tag_artist :: "string option"
  tag_album :: "string option"
  tag_picture :: "string list option"

text \<open>
  What the file system, the tag parser, the clock and the runtime answer while one
  request is handled. A call that throws returns \<open>Inl\<close>.
\<close>

record env =
  dirname :: string
  existsSync :: "string \<Rightarrow> bool"
  readdirSync :: "string \<Rightarrow> error + string list"
  statSync :: "string \<Rightarrow> error + nat"
  parseFile :: "string \<Rightarrow> error + common"
  writable :: "string \<Rightarrow> bool"
  now :: nat
  toNumberOther :: "jsval \<Rightarrow> jsnum"

definition musicFolder :: "env \<Rightarrow> string" where
  "musicFolder e = path_join (dirname e) ''musics''"

definition sideAFolder :: "env \<Rightarrow> string" where
  "sideAFolder e = path_join (musicFolder e) ''side a''"

definition sideBFolder :: "env \<Rightarrow> string" where
  "sideBFolder e = path_join (musicFolder e) ''side b''"

definition coversFolder :: "env \<Rightarrow> string" where
  "coversFolder e = path_join (dirname e) ''covers''"

section \<open>Tracks, the metadata cache and the server state\<close>

record cache_entry =
  c_title :: string
  c_artist :: string
  c_album :: string
  c_albumCover :: "string option"

text \<open>A track; \<open>trackId\<close> and \<open>fileSize\<close> are the properties \<open>id\<close> and \<open>size\<close>.\<close>

record track =
  trackId :: string
  title :: string
  artist :: string
  album :: string
  filename :: string
  url :: string
  albumCover :: "string option"
  fileSize :: nat
  trackNumber :: nat

record playlists =
  sideA :: "track list"
  sideB :: "track list"

text \<open>
  The two module-level variables, and a log of the calls made to the tag parser and of
  the cover files written.
\<close>

datatype event = ParseFile string | WriteFile string string

record server_state =
  userSession :: session
  metadataCache :: "string \<Rightarrow> cache_entry option"
  calls :: "event list"

definition initialState :: server_state where
  "initialState = \<lparr> userSession = defaultSession, metadataCache = Map.empty, calls = [] \<rparr>"

definition logCall :: "event \<Rightarrow> server_state \<Rightarrow> server_state" where
  "logCall ev st = st\<lparr> calls := calls st @ [ev] \<rparr>"

section \<open>The library scanner\<close>

definition audioExtensions :: "string list" where
  "audioExtensions = [''.mp3'', ''.wav'', ''.ogg'', ''.m4a'', ''.flac'']"

definition isAudio :: "string \<Rightarrow> bool" where
  "isAudio file = (toLowerCase (extname file) \<in> set audioExtensions)"

text \<open>\<open>a || b\<close> on strings.\<close>

definition orElse :: "string \<Rightarrow> string \<Rightarrow> string" where
  "orElse a b = (if a \<noteq> [] then a else b)"

text \<open>\<open>if (tag) x = tag\<close> for an optional string tag.\<close>

definition tagOr :: "string option \<Rightarrow> string \<Rightarrow> string" where
  "tagOr t d = (case t of None \<Rightarrow> d | Some s \<Rightarrow> if s \<noteq> [] then s else d)"

definition defaultTitle :: "string \<Rightarrow> string" where
  "defaultTitle file =
     trim (replaceAll CHR ''-'' CHR '' '' (replaceAll CHR ''_'' CHR '' ''
       (basename file (extname file))))"

text \<open>
  \<open>extractAlbumCover\<close>: parses the file again; with a first picture it writes the cover
  file and returns its URL. Every failure is caught and gives \<open>null\<close>.
\<close>

definition extractAlbumCover ::
  "env \<Rightarrow> string \<Rightarrow> string \<Rightarrow> server_state \<Rightarrow> string option \<times> server_state" where
  "extractAlbumCover e filePath tid st =
     (let st1 = logCall (ParseFile filePath) st in
      case parseFile e filePath of
        Inl err \<Rightarrow> (None, st1)
      | Inr md \<Rightarrow>
          (case tag_picture md of
             Some (picture # others) \<Rightarrow>
               (let coverPath = path_join (coversFolder e) (tid @ ''.jpg'') in
                if writable e coverPath
                then (Some (''/covers/'' @ tid @ ''.jpg''), logCall (WriteFile coverPath picture) st1)
                else (None, st1))
           | _ \<Rightarrow> (None, st1)))"

text \<open>
  The \<open>try\<close> block of the loop body: cached metadata if the cache has the path, else a
  parse whose result is cached; a failing parse leaves the defaults.
\<close>

definition readMetadata ::
  "env \<Rightarrow> string \<Rightarrow> string \<Rightarrow> string \<Rightarrow> server_state
     \<Rightarrow> (string \<times> string \<times> string \<times> string option) \<times> server_state" where
  "readMetadata e filePath tid file st =
     (case metadataCache st filePath of
        Some cached \<Rightarrow>
          ((orElse (c_title cached) (defaultTitle file),
            orElse (c_artist cached) ''Unknown Artist'',
            orElse (c_album cached) ''Unknown Album'',
            c_albumCover cached), st)
      | None \<Rightarrow>
          (let st1 = logCall (ParseFile filePath) st in
           case parseFile e filePath of
             Inl err \<Rightarrow> ((defaultTitle file, ''Unknown Artist'', ''Unknown Album'', None), st1)
           | Inr md \<Rightarrow>
               (let t = tagOr (tag_title md) (defaultTitle file);
                    a = tagOr (tag_artist md) ''Unknown Artist'';
                    al = tagOr (tag_album md) ''Unknown Album'';
                    (cover, st2) = extractAlbumCover e filePath tid st1;
                    entry = \<lparr> c_title = t, c_artist = a, c_album = al, c_albumCover = cover \<rparr>
                in ((t, a, al, cover),
                    st2\<lparr> metadataCache := (metadataCache st2)(filePath \<mapsto> entry) \<rparr>))))"

text \<open>The template literal \<open>`${side}-${index}`\<close>.\<close>

definition mkId :: "string \<Rightarrow> nat \<Rightarrow> string" where
  "mkId side index = side @ ''-'' @ string_of_nat index"

text \<open>The loop body for an audio file at position \<open>index\<close> of the listing.\<close>

definition processFile ::
  "env \<Rightarrow> string \<Rightarrow> string \<Rightarrow> nat \<Rightarrow> string \<Rightarrow> server_state
     \<Rightarrow> (error + track) \<times> server_state" where
  "processFile e folderPath side index file st =
     (let filePath = path_join folderPath file in
      case statSync e filePath of
        Inl err \<Rightarrow> (Inl err, st)
      | Inr sz \<Rightarrow>
          (let tid = mkId side index;
               ((t, a, al, cover), st') = readMetadata e filePath tid file st
           in (Inr \<lparr> trackId = tid, title = t, artist = a, album = al, filename = file,
                     url = ''/musics/side '' @ toLowerCase side @ ''/'' @ encodeURIComponent file,
                     albumCover = cover, fileSize = sz, trackNumber = index + 1 \<rparr>, st')))"

text \<open>
  The \<open>for\<close> loop over the listing: \<open>files\<close> are the entries from position \<open>index\<close> on,
  \<open>tracks\<close> the tracks pushed so far.
\<close>

fun scanLoop ::
  "env \<Rightarrow> string \<Rightarrow> string \<Rightarrow> nat \<Rightarrow> string list \<Rightarrow> track list \<Rightarrow> server_state
     \<Rightarrow> (error + track list) \<times> server_state" where
  "scanLoop e folderPath side index [] tracks st = (Inr tracks, st)"
| "scanLoop e folderPath side index (file # files) tracks st =
     (if \<not> isAudio file then scanLoop e folderPath side (index + 1) files tracks st
      else case processFile e folderPath side index file st of
             (Inl err, st') \<Rightarrow> (Inl err, st')
           | (Inr t, st') \<Rightarrow> scanLoop e folderPath side (index + 1) files (tracks @ [t]) st')"

definition getSongsFromFolder ::
  "env \<Rightarrow> string \<Rightarrow> string \<Rightarrow> server_state \<Rightarrow> (error + track list) \<times> server_state" where
  "getSongsFromFolder e folderPath side st =
     (if \<not> existsSync e folderPath then (Inr [], st)
      else case readdirSync e folderPath of
             Inl err \<Rightarrow> (Inl err, st)
           | Inr files \<Rightarrow> scanLoop e folderPath side 0 files [] st)"

definition loadMusicFiles :: "env \<Rightarrow> server_state \<Rightarrow> (error + playlists) \<times> server_state" where
  "loadMusicFiles e st =
     (case getSongsFromFolder e (sideAFolder e) ''A'' st of
        (Inl err, st1) \<Rightarrow> (Inl err, st1)
      | (Inr a, st1) \<Rightarrow>
          (case getSongsFromFolder e (sideBFolder e) ''B'' st1 of
             (Inl err, st2) \<Rightarrow> (Inl err, st2)
           | (Inr b, st2) \<Rightarrow> (Inr \<lparr> sideA = a, sideB = b \<rparr>, st2)))"

section \<open>The HTTP handlers\<close>

datatype payload =
    HealthInfo string nat string string
  | PlaylistsBody playlists
  | SideBody string "track list"
  | ErrorBody string
  | SessionSnapshot session
  | SessionSaved session
  | TapeModeSet jsval
  | VolumeSet jsval
  | Refreshed nat nat
  | SessionReset

text \<open>
  What a handler does with a request: it sends a response with a status, or a failure
  leaves the handler uncaught and the handler sends nothing.
\<close>

datatype outcome = Responded nat payload | Escaped error

definition statusOf :: "outcome \<Rightarrow> nat option" where
  "statusOf out = (case out of Responded code p \<Rightarrow> Some code | Escaped err \<Rightarrow> None)"

datatype request =
    GetHealth
  | GetPlaylists
  | GetPlaylistsSide string
  | GetSession
  | PostSession body
  | PutTapeMode body
  | PutVolume body
  | PostRefresh
  | PostSessionReset

definition get_health :: "env \<Rightarrow> server_state \<Rightarrow> outcome \<times> server_state" where
  "get_health e st =
     (case loadMusicFiles e st of
        (Inl err, st') \<Rightarrow> (Escaped err, st')
      | (Inr pl, st') \<Rightarrow>
          (Responded 200 (HealthInfo ''Server is running!'' (now e)
             (string_of_nat (length (sideA pl)) @ '' tracks'')
             (string_of_nat (length (sideB pl)) @ '' tracks'')), st'))"

definition get_playlists :: "env \<Rightarrow> server_state \<Rightarrow> outcome \<times> server_state" where
  "get_playlists e st =
     (case loadMusicFiles e st of
        (Inl err, st') \<Rightarrow> (Responded 500 (ErrorBody ''Failed to load playlists''), st')
      | (Inr pl, st') \<Rightarrow> (Responded 200 (PlaylistsBody pl), st'))"

definition get_playlists_side :: "env \<Rightarrow> string \<Rightarrow> server_state \<Rightarrow> outcome \<times> server_state" where
  "get_playlists_side e param st =
     (let side = toUpperCase param in
      case loadMusicFiles e st of
        (Inl err, st') \<Rightarrow> (Responded 500 (ErrorBody ''Failed to load side''), st')
      | (Inr pl, st') \<Rightarrow>
          (if side = ''A'' then (Responded 200 (SideBody ''A'' (sideA pl)), st')
           else if side = ''B'' then (Responded 200 (SideBody ''B'' (sideB pl)), st')
           else (Responded 404 (ErrorBody ''Side not found. Use A or B''), st')))"

definition get_session :: "server_state \<Rightarrow> outcome \<times> server_state" where
  "get_session st = (Responded 200 (SessionSnapshot (userSession st)), st)"

definition post_session :: "body \<Rightarrow> server_state \<Rightarrow> outcome \<times> server_state" where
  "post_session b st =
     (let u0 = userSession st;
          u1 = (if truthy (getProp b ''currentSide'')
                then u0\<lparr> currentSide := getProp b ''currentSide'' \<rparr> else u0);
          u2 = (if getProp b ''currentTrackId'' \<noteq> JUndefined
                then u1\<lparr> currentTrackId := getProp b ''currentTrackId'' \<rparr> else u1);
          u3 = (if getProp b ''currentTime'' \<noteq> JUndefined
                then u2\<lparr> currentTime := getProp b ''currentTime'' \<rparr> else u2);
          u4 = (if getProp b ''volume'' \<noteq> JUndefined
                then u3\<lparr> volume := getProp b ''volume'' \<rparr> else u3);
          u5 = (if getProp b ''tapeMode'' \<noteq> JUndefined
                then u4\<lparr> tapeMode := getProp b ''tapeMode'' \<rparr> else u4);
          u6 = (if getProp b ''isPlaying'' \<noteq> JUndefined
                then u5\<lparr> isPlaying := getProp b ''isPlaying'' \<rparr> else u5)
      in (Responded 200 (SessionSaved u6), st\<lparr> userSession := u6 \<rparr>))"

definition put_tape_mode :: "body \<Rightarrow> server_state \<Rightarrow> outcome \<times> server_state" where
  "put_tape_mode b st =
     (let u = (userSession st)\<lparr> tapeMode := getProp b ''enabled'' \<rparr>
      in (Responded 200 (TapeModeSet (tapeMode u)), st\<lparr> userSession := u \<rparr>))"

definition put_volume :: "env \<Rightarrow> body \<Rightarrow> server_state \<Rightarrow> outcome \<times> server_state" where
  "put_volume e b st =
     (let v = getProp b ''volume'' in
      if js_lt (toNumberOther e) v 0 \<or> js_gt (toNumberOther e) v 100
      then (Responded 400 (ErrorBody ''Volume must be between 0 and 100''), st)
      else (let u = (userSession st)\<lparr> volume := v \<rparr>
            in (Responded 200 (VolumeSet (volume u)), st\<lparr> userSession := u \<rparr>)))"

definition post_refresh :: "env \<Rightarrow> server_state \<Rightarrow> outcome \<times> server_state" where
  "post_refresh e st =
     (case loadMusicFiles e (st\<lparr> metadataCache := Map.empty \<rparr>) of
        (Inl err, st') \<Rightarrow> (Responded 500 (ErrorBody ''Failed to refresh playlists''), st')
      | (Inr pl, st') \<Rightarrow>
          (Responded 200 (Refreshed (length (sideA pl)) (length (sideB pl))), st'))"

definition post_session_reset :: "server_state \<Rightarrow> outcome \<times> server_state" where
  "post_session_reset st = (Responded 200 SessionReset, st\<lparr> userSession := defaultSession \<rparr>)"

fun handle :: "env \<Rightarrow> request \<Rightarrow> server_state \<Rightarrow> outcome \<times> server_state" where
  "handle e GetHealth st = get_health e st"
| "handle e GetPlaylists st = get_playlists e st"
| "handle e (GetPlaylistsSide param) st = get_playlists_side e param st"
| "handle e GetSession st = get_session st"
| "handle e (PostSession b) st = post_session b st"
| "handle e (PutTapeMode b) st = put_tape_mode b st"
| "handle e (PutVolume b) st = put_volume e b st"
| "handle e PostRefresh st = post_refresh e st"
| "handle e PostSessionReset st = post_session_reset st"

text \<open>
  A directory listing holds entry names: none of them contains a path separator.
\<close>

definition entryNames :: "env \<Rightarrow> bool" where
  "entryNames e =
     (\<forall>d files. readdirSync e d = Inr files \<longrightarrow> (\<forall>f \<in> set files. CHR ''/'' \<notin> set f))"

text \<open>
  The states the server can be in: it starts with the default session and an empty
  cache, scans once at start-up, and then handles requests one after the other, each
  in whatever environment it finds.
\<close>

inductive reachable :: "server_state \<Rightarrow> bool" where
  start: "reachable initialState"
| startup: "reachable st \<Longrightarrow> entryNames e \<Longrightarrow> reachable (snd (loadMusicFiles e st))"
| request: "reachable st \<Longrightarrow> entryNames e \<Longrightarrow> reachable (snd (handle e r st))"

section \<open>The player\<close>

text \<open>
  The client's global variables (those that share a name with a session property carry
  the prefix \<open>ui_\<close>), the parts of the audio element and of the page that
  \<open>switchSide\<close> and the functions it calls read or write, and the session posts sent.
  The variable \<open>playlists\<close> holds two track lists, as it does initially and after
  every successful load.
\<close>

record audio_el =
  src :: string
  audioTime :: rat
  audioVolume :: rat

datatype cover_view = DefaultIcon | Img string string

datatype tracklist_view = NoTracks | Rows "(bool \<times> int \<times> string) list"

record session_post =
  p_currentSide :: jsval
  p_currentTrackId :: "string option"
  p_currentTime :: int
  p_volume :: int
  p_tapeMode :: jsval
  p_isPlaying :: bool

record ui_state =
  ui_playlists :: playlists
  ui_currentSide :: jsval
  currentTrackIndex :: int
  ui_isPlaying :: bool
  ui_tapeMode :: jsval
  trackListVisible :: bool
  isMuted :: bool
  lastVolume :: jsval
  savedTimestamp :: jsval
  audioPlayer :: audio_el
  restoreListeners :: nat
  statusBar :: string
  sideABtnActive :: bool
  sideBBtnActive :: bool
  trackTitle :: string
  trackArtist :: string
  albumCoverView :: cover_view
  trackListView :: tracklist_view
  sent :: "session_post list"

text \<open>
  The browser: what assigning \<open>audioPlayer.src\<close> does to the audio element, the
  runtime's number conversion of strings and objects, and the product of two numbers as
  the runtime computes it (the double nearest to the exact product).
\<close>

record browser =
  assignSrc :: "string \<Rightarrow> audio_el \<Rightarrow> audio_el"
  convNumber :: "jsval \<Rightarrow> jsnum"
  times :: "rat \<Rightarrow> rat \<Rightarrow> rat"

definition API_URL :: string where
  "API_URL = ''http://localhost:5000''"

definition setStatus :: "string \<Rightarrow> ui_state \<Rightarrow> ui_state" where
  "setStatus message s = s\<lparr> statusBar := message \<rparr>"

definition getCurrentPlaylist :: "ui_state \<Rightarrow> track list" where
  "getCurrentPlaylist s =
     (if ui_currentSide s = JStr ''A'' then sideA (ui_playlists s) else sideB (ui_playlists s))"

text \<open>\<open>playlist[index]\<close>: \<open>undefined\<close> outside the list.\<close>

definition at_index :: "'a list \<Rightarrow> int \<Rightarrow> 'a option" where
  "at_index xs i = (if 0 \<le> i \<and> i < int (length xs) then Some (xs ! nat i) else None)"

definition saveSession :: "browser \<Rightarrow> ui_state \<Rightarrow> ui_state" where
  "saveSession br s =
     (let currentTrack = at_index (getCurrentPlaylist s) (currentTrackIndex s);
          post = \<lparr> p_currentSide = ui_currentSide s,
                   p_currentTrackId = map_option trackId currentTrack,
                   p_currentTime = \<lfloor>audioTime (audioPlayer s)\<rfloor>,
                   p_volume = round (times br (audioVolume (audioPlayer s)) 100),
                   p_tapeMode = ui_tapeMode s,
                   p_isPlaying = ui_isPlaying s \<rparr>
      in s\<lparr> sent := sent s @ [post] \<rparr>)"

definition updateSideUI :: "ui_state \<Rightarrow> ui_state" where
  "updateSideUI s =
     s\<lparr> sideABtnActive := (ui_currentSide s = JStr ''A''),
        sideBBtnActive := (ui_currentSide s = JStr ''B'') \<rparr>"

definition updateTrackList :: "ui_state \<Rightarrow> ui_state" where
  "updateTrackList s =
     (let playlist = getCurrentPlaylist s in
      if length playlist = 0 then s\<lparr> trackListView := NoTracks \<rparr>
      else s\<lparr> trackListView :=
             Rows (map (\<lambda>(i, t). (int i = currentTrackIndex s, int i + 1, title t))
                       (zip [0 ..< length playlist] playlist)) \<rparr>)"

definition loadTrack :: "browser \<Rightarrow> int \<Rightarrow> bool \<Rightarrow> ui_state \<Rightarrow> ui_state" where
  "loadTrack br index restoreTime s =
     (let playlist = getCurrentPlaylist s in
      if index < 0 \<or> index \<ge> int (length playlist) then s
      else
        (let t = playlist ! nat index;
             s1 = s\<lparr> currentTrackIndex := index \<rparr>;
             s2 = s1\<lparr> audioPlayer := assignSrc br (API_URL @ url t) (audioPlayer s1),
                      trackTitle := title t,
                      trackArtist := artist t,
                      albumCoverView :=
                        (case albumCover t of
                           None \<Rightarrow> DefaultIcon
                         | Some c \<Rightarrow> if c \<noteq> [] then Img c (title t) else DefaultIcon) \<rparr>;
             s3 = (if restoreTime \<and> js_gt (convNumber br) (savedTimestamp s2) 0
                   then s2\<lparr> restoreListeners := restoreListeners s2 + 1 \<rparr> else s2)
         in saveSession br (updateTrackList s3)))"

definition switchSide :: "browser \<Rightarrow> jsval \<Rightarrow> ui_state \<Rightarrow> ui_state" where
  "switchSide br side s =
     (if truthy (ui_tapeMode s) \<and> ui_isPlaying s
      then setStatus ''Stop playback to flip tape'' s
      else
        (let s1 = s\<lparr> savedTimestamp := JNum (Fin (audioTime (audioPlayer s))) \<rparr>;
             s2 = s1\<lparr> ui_currentSide := side, currentTrackIndex := 0 \<rparr>;
             s3 = updateTrackList (updateSideUI s2);
             s4 = (if length (getCurrentPlaylist s3) > 0 then loadTrack br 0 True s3 else s3)
         in saveSession br s4))"

section \<open>Notions used in the properties\<close>

text \<open>The positions, in a directory listing, of the entries with an audio extension.\<close>

definition audioPositions :: "string list \<Rightarrow> nat list" where
  "audioPositions files = filter (\<lambda>i. isAudio (files ! i)) [0 ..< length files]"




text \<open>The entry name a cache key ends with.\<close>

definition lastSegment :: "string \<Rightarrow> string" where
  "lastSegment p = rev (takeWhile (\<lambda>c. c \<noteq> CHR ''/'') (rev p))"

text \<open>
  What every entry the scanner stores looks like: artist and album are non-empty, and
  the title is empty only where the title derived from the file name is empty too.
\<close>

definition cacheOk :: "server_state \<Rightarrow> bool" where
  "cacheOk st =
     (\<forall>p c. metadataCache st p = Some c \<longrightarrow>
        c_artist c \<noteq> [] \<and> c_album c \<noteq> []
        \<and> (c_title c = [] \<longrightarrow> defaultTitle (lastSegment p) = []))"

text \<open>The calls logged after state \<open>st0\<close>, up to state \<open>st\<close>.\<close>

definition newCalls :: "server_state \<Rightarrow> server_state \<Rightarrow> event list" where
  "newCalls st0 st = drop (length (calls st0)) (calls st)"

text \<open>
  A concrete environment: the program lives in \<open>/srv\<close>, both folders exist and list the
  given entries, \<open>stat\<close> and the tag parser answer as given, covers can be written.
\<close>

definition exampleEnv ::
  "string list \<Rightarrow> string list \<Rightarrow> (string \<Rightarrow> error + nat) \<Rightarrow> (string \<Rightarrow> error + common) \<Rightarrow> env" where
  "exampleEnv filesA filesB stat parse =
     \<lparr> dirname = ''/srv'', existsSync = (\<lambda>p. True),
       readdirSync = (\<lambda>p. if p = ''/srv/musics/side a'' then Inr filesA
                            else if p = ''/srv/musics/side b'' then Inr filesB
                            else Inl FsError),
       statSync = stat, parseFile = parse, writable = (\<lambda>p. True), now = 0,
       toNumberOther = (\<lambda>v. NaN) \<rparr>"

text \<open>A tag parser that fails on every file, and a \<open>stat\<close> that succeeds or fails everywhere.\<close>

definition noTags :: "string \<Rightarrow> error + common" where
  "noTags p = Inl ParseError"

definition statOk :: "string \<Rightarrow> error + nat" where
  "statOk p = Inr 1000"

definition statFails :: "string \<Rightarrow> error + nat" where
  "statFails p = Inl FsError"

text \<open>
  An entry as a scan stores it for the path \<open>q\<close>: the parse succeeded and each field is
  the tag, or its default where the tag is missing.
\<close>

definition fromTags :: "env \<Rightarrow> string \<Rightarrow> cache_entry \<Rightarrow> bool" where
  "fromTags e q c =
     (\<exists>md. parseFile e q = Inr md
        \<and> c_title c = tagOr (tag_title md) (defaultTitle (lastSegment q))
        \<and> c_artist c = tagOr (tag_artist md) ''Unknown Artist''
        \<and> c_album c = tagOr (tag_album md) ''Unknown Album'')"

text \<open>
  How a scan in environment \<open>e\<close> can change the state: the session stays, entries of the
  cache stay as they are, the log gets longer, only paths without an entry are parsed,
  and every new entry was parsed during the scan.
\<close>

definition grows :: "env \<Rightarrow> server_state \<Rightarrow> server_state \<Rightarrow> bool" where
  "grows e st st' =
     (userSession st' = userSession st
      \<and> (\<forall>q c. metadataCache st q = Some c \<longrightarrow> metadataCache st' q = Some c)
      \<and> (\<exists>evs. calls st' = calls st @ evs
            \<and> (\<forall>q. ParseFile q \<in> set evs \<longrightarrow> metadataCache st q = None)
            \<and> (\<forall>q c. metadataCache st q = None \<longrightarrow> metadataCache st' q = Some c \<longrightarrow>
                   ParseFile q \<in> set evs \<and> fromTags e q c)))"

text \<open>
  What a scan that started in state \<open>st0\<close> and has reached state \<open>st\<close> has put into the
  track \<open>t\<close> of the folder: the fields of the entry the cache had at the start, or else
  the result of a parse made during the scan, which is in the cache when it succeeded.
\<close>

definition scanned :: "env \<Rightarrow> server_state \<Rightarrow> server_state \<Rightarrow> string \<Rightarrow> track \<Rightarrow> bool" where
  "scanned e st0 st folder t =
     (case metadataCache st0 (path_join folder (filename t)) of
        Some c \<Rightarrow>
          title t = orElse (c_title c) (defaultTitle (filename t))
          \<and> artist t = orElse (c_artist c) ''Unknown Artist''
          \<and> album t = orElse (c_album c) ''Unknown Album''
          \<and> albumCover t = c_albumCover c
      | None \<Rightarrow>
          ParseFile (path_join folder (filename t)) \<in> set (newCalls st0 st)
          \<and> (case parseFile e (path_join folder (filename t)) of
                Inl err \<Rightarrow>
                  title t = defaultTitle (filename t) \<and> artist t = ''Unknown Artist''
                  \<and> album t = ''Unknown Album'' \<and> albumCover t = None
              | Inr md \<Rightarrow>
                  title t = tagOr (tag_title md) (defaultTitle (filename t))
                  \<and> artist t = tagOr (tag_artist md) ''Unknown Artist''
                  \<and> album t = tagOr (tag_album md) ''Unknown Album''
                  \<and> metadataCache st (path_join folder (filename t)) \<noteq> None))"


text \<open>The entries a scan of the folder sees: none when the folder does not exist.\<close>

definition listing :: "env \<Rightarrow> string \<Rightarrow> error + string list" where
  "listing e folder = (if existsSync e folder then readdirSync e folder else Inr [])"

text \<open>A tag parser that finds title, artist and a picture, and no album.\<close>

definition someTags :: "string \<Rightarrow> error + common" where
  "someTags p = Inr \<lparr> tag_title = Some ''Song'', tag_artist = Some ''Band'', tag_album = None,
                      tag_picture = Some [''img''] \<rparr>"

text \<open>The state after a start-up scan that found one tagged file on side A.\<close>

definition exampleCachedState :: server_state where
  "exampleCachedState =
     snd (loadMusicFiles (exampleEnv [''01_song.mp3''] [] statOk someTags) initialState)"

text \<open>
  A concrete player: two tracks on side A and one on side B, tape mode on, the second
  track of side A playing; and a browser that resets the position when a source is
  assigned (on the numbers of this player the exact product is the runtime's product).
\<close>

definition exampleTrack :: "string \<Rightarrow> string \<Rightarrow> nat \<Rightarrow> track" where
  "exampleTrack side name n =
     \<lparr> trackId = mkId side n, title = name, artist = ''Unknown Artist'',
       album = ''Unknown Album'', filename = name @ ''.mp3'',
       url = ''/musics/side '' @ toLowerCase side @ ''/'' @ name @ ''.mp3'',
       albumCover = None, fileSize = 1000, trackNumber = n + 1 \<rparr>"

definition exampleUi :: ui_state where
  "exampleUi =
     \<lparr> ui_playlists = \<lparr> sideA = [exampleTrack ''A'' ''one'' 0, exampleTrack ''A'' ''two'' 1],
                        sideB = [exampleTrack ''B'' ''three'' 0] \<rparr>,
       ui_currentSide = JStr ''A'', currentTrackIndex = 1, ui_isPlaying = True,
       ui_tapeMode = JBool True, trackListVisible = False, isMuted = False,
       lastVolume = JNum (Fin 75), savedTimestamp = JNum (Fin 0),
       audioPlayer = \<lparr> src = ''http://localhost:5000/musics/side a/two.mp3'',
                       audioTime = 42, audioVolume = 3 / 4 \<rparr>,
       restoreListeners = 0, statusBar = [], sideABtnActive = True, sideBBtnActive = False,
       trackTitle = ''two'', trackArtist = ''Unknown Artist'', albumCoverView = DefaultIcon,
       trackListView = Rows [(False, 1, ''one''), (True, 2, ''two'')], sent = [] \<rparr>"

definition exampleBrowser :: browser where
  "exampleBrowser =
     \<lparr> assignSrc = (\<lambda>u a. a\<lparr> src := u, audioTime := 0 \<rparr>), convNumber = (\<lambda>v. NaN),
       times = (\<lambda>a b. a * b) \<rparr>"

section \<open>The session endpoints\<close>

lemma getProp_absent: "b k = None \<Longrightarrow> getProp b k = JUndefined"
  by (simp add: getProp_def)

lemma getProp_present: "b k = Some v \<Longrightarrow> getProp b k = v"
  by (simp add: getProp_def)

lemma session_update_simps:
  "currentSide (userSession (snd (post_session b st))) =
     (if truthy (getProp b ''currentSide'') then getProp b ''currentSide''
      else currentSide (userSession st))"
  "currentTrackId (userSession (snd (post_session b st))) =
     (if getProp b ''currentTrackId'' \<noteq> JUndefined then getProp b ''currentTrackId''
      else currentTrackId (userSession st))"
  "currentTime (userSession (snd (post_session b st))) =
     (if getProp b ''currentTime'' \<noteq> JUndefined then getProp b ''currentTime''
      else currentTime (userSession st))"
  "volume (userSession (snd (post_session b st))) =
     (if getProp b ''volume'' \<noteq> JUndefined then getProp b ''volume''
      else volume (userSession st))"
  "tapeMode (userSession (snd (post_session b st))) =
     (if getProp b ''tapeMode'' \<noteq> JUndefined then getProp b ''tapeMode''
      else tapeMode (userSession st))"
  "isPlaying (userSession (snd (post_session b st))) =
     (if getProp b ''isPlaying'' \<noteq> JUndefined then getProp b ''isPlaying''
      else isPlaying (userSession st))"
  by (simp_all add: post_session_def Let_def)

lemma post_session_response:
  "fst (post_session b st) = Responded 200 (SessionSaved (userSession (snd (post_session b st))))"
  by (simp add: post_session_def Let_def)

lemma put_volume_number:
  "b ''volume'' = Some (JNum n) \<Longrightarrow>
   put_volume e b st =
     (if num_lt n (Fin 0) \<or> num_lt (Fin 100) n
      then (Responded 400 (ErrorBody ''Volume must be between 0 and 100''), st)
      else (Responded 200 (VolumeSet (JNum n)),
            st\<lparr> userSession := (userSession st)\<lparr> volume := JNum n \<rparr> \<rparr>))"
  by (simp add: put_volume_def getProp_def js_lt_def js_gt_def Let_def)

text \<open>
  C3. A partial update to POST /api/session leaves each of the six session fields that
  the request body does not have at its prior value, and the response carries the
  updated session. Posting \<open>{volume: 40}\<close> after \<open>{currentSide: "B"}\<close> gives side B and
  volume 40.
\<close>

theorem post_session_keeps_absent_fields:
  "(b ''currentSide'' = None \<longrightarrow>
      currentSide (userSession (snd (post_session b st))) = currentSide (userSession st))
   \<and> (b ''currentTrackId'' = None \<longrightarrow>
      currentTrackId (userSession (snd (post_session b st))) = currentTrackId (userSession st))
   \<and> (b ''currentTime'' = None \<longrightarrow>
      currentTime (userSession (snd (post_session b st))) = currentTime (userSession st))
   \<and> (b ''volume'' = None \<longrightarrow>
      volume (userSession (snd (post_session b st))) = volume (userSession st))
   \<and> (b ''tapeMode'' = None \<longrightarrow>
      tapeMode (userSession (snd (post_session b st))) = tapeMode (userSession st))
   \<and> (b ''isPlaying'' = None \<longrightarrow>
      isPlaying (userSession (snd (post_session b st))) = isPlaying (userSession st))
   \<and> fst (post_session b st)
       = Responded 200 (SessionSaved (userSession (snd (post_session b st))))
   \<and> currentSide (userSession (snd (post_session [''volume'' \<mapsto> JNum (Fin 40)]
        (snd (post_session [''currentSide'' \<mapsto> JStr ''B''] st))))) = JStr ''B''
   \<and> volume (userSession (snd (post_session [''volume'' \<mapsto> JNum (Fin 40)]
        (snd (post_session [''currentSide'' \<mapsto> JStr ''B''] st))))) = JNum (Fin 40)"
  by (simp add: session_update_simps post_session_response getProp_def)

theorem post_session_keeps_absent_fields_witness:
  "[''volume'' \<mapsto> JNum (Fin 40)] ''currentSide'' = None
   \<and> [''volume'' \<mapsto> JNum (Fin 40)] ''isPlaying'' = None
   \<and> currentSide (userSession (snd (post_session [''volume'' \<mapsto> JNum (Fin 40)] initialState)))
       = JStr ''A''
   \<and> isPlaying (userSession (snd (post_session [''volume'' \<mapsto> JNum (Fin 40)] initialState)))
       = JBool False"
  using post_session_keeps_absent_fields [of "[''volume'' \<mapsto> JNum (Fin 40)]" initialState]
  by (simp add: initialState_def defaultSession_def)

text \<open>
  C4. A number \<open>v\<close> sent to PUT /api/session/volume is answered with status 400, the
  session left as it was, exactly when \<open>v\<close> is outside the interval from 0 to 100;
  a number inside the interval (0 and 100 included) is answered with success and stored
  as the session volume. The two infinities are rejected like any number outside;
  \<open>NaN\<close> is not a number a JSON body can carry.
\<close>

theorem put_volume_rejects_iff_out_of_range:
  "b ''volume'' = Some (JNum (Fin v)) \<Longrightarrow>
     ((statusOf (fst (put_volume e b st)) = Some 400
        \<and> volume (userSession (snd (put_volume e b st))) = volume (userSession st))
       \<longleftrightarrow> (v < 0 \<or> 100 < v))
     \<and> (v < 0 \<or> 100 < v \<longrightarrow> snd (put_volume e b st) = st)
     \<and> (0 \<le> v \<and> v \<le> 100 \<longrightarrow>
          fst (put_volume e b st) = Responded 200 (VolumeSet (JNum (Fin v)))
          \<and> volume (userSession (snd (put_volume e b st))) = JNum (Fin v))
     \<and> put_volume e [''volume'' \<mapsto> JNum PosInf] st
          = (Responded 400 (ErrorBody ''Volume must be between 0 and 100''), st)
     \<and> put_volume e [''volume'' \<mapsto> JNum NegInf] st
          = (Responded 400 (ErrorBody ''Volume must be between 0 and 100''), st)"
  by (auto simp add: put_volume_number statusOf_def)

theorem put_volume_rejects_iff_out_of_range_witness:
  "statusOf (fst (put_volume (exampleEnv [] [] statOk noTags)
       [''volume'' \<mapsto> JNum (Fin (- 1))] initialState)) = Some 400
   \<and> snd (put_volume (exampleEnv [] [] statOk noTags)
       [''volume'' \<mapsto> JNum (Fin (- 1))] initialState) = initialState
   \<and> statusOf (fst (put_volume (exampleEnv [] [] statOk noTags)
       [''volume'' \<mapsto> JNum (Fin 101)] initialState)) = Some 400
   \<and> snd (put_volume (exampleEnv [] [] statOk noTags)
       [''volume'' \<mapsto> JNum (Fin 101)] initialState) = initialState
   \<and> volume (userSession (snd (put_volume (exampleEnv [] [] statOk noTags)
       [''volume'' \<mapsto> JNum (Fin 0)] initialState))) = JNum (Fin 0)
   \<and> volume (userSession (snd (put_volume (exampleEnv [] [] statOk noTags)
       [''volume'' \<mapsto> JNum (Fin 100)] initialState))) = JNum (Fin 100)"
  using
    put_volume_rejects_iff_out_of_range [of "[''volume'' \<mapsto> JNum (Fin (- 1))]" "- 1"
      "exampleEnv [] [] statOk noTags" initialState]
    put_volume_rejects_iff_out_of_range [of "[''volume'' \<mapsto> JNum (Fin 101)]" 101
      "exampleEnv [] [] statOk noTags" initialState]
    put_volume_rejects_iff_out_of_range [of "[''volume'' \<mapsto> JNum (Fin 0)]" 0
      "exampleEnv [] [] statOk noTags" initialState]
    put_volume_rejects_iff_out_of_range [of "[''volume'' \<mapsto> JNum (Fin 100)]" 100
      "exampleEnv [] [] statOk noTags" initialState]
  by simp

text \<open>
  C9. When the body of PUT /api/session/volume has no \<open>volume\<close> property, both
  comparisons of the range check are false, the handler answers with success, and the
  session volume becomes \<open>undefined\<close>.
\<close>

theorem put_volume_missing_field:
  "b ''volume'' = None \<Longrightarrow>
     \<not> js_lt (toNumberOther e) (getProp b ''volume'') 0
     \<and> \<not> js_gt (toNumberOther e) (getProp b ''volume'') 100
     \<and> put_volume e b st =
         (Responded 200 (VolumeSet JUndefined),
          st\<lparr> userSession := (userSession st)\<lparr> volume := JUndefined \<rparr> \<rparr>)"
  by (simp add: put_volume_def getProp_def js_lt_def js_gt_def Let_def)

theorem put_volume_missing_field_witness:
  "Map.empty ''volume'' = (None :: jsval option)
   \<and> statusOf (fst (put_volume (exampleEnv [] [] statOk noTags) Map.empty initialState)) = Some 200
   \<and> volume (userSession (snd (put_volume (exampleEnv [] [] statOk noTags) Map.empty initialState)))
       = JUndefined
   \<and> volume (userSession initialState) = JNum (Fin 75)"
  using put_volume_missing_field [of Map.empty "exampleEnv [] [] statOk noTags" initialState]
  by (simp add: statusOf_def initialState_def defaultSession_def)

text \<open>
  C10. POST /api/session stores \<open>currentSide\<close> only when the value sent is truthy (an
  empty string is ignored) and checks no membership (\<open>"C"\<close> is stored); each of the other
  five fields is stored whenever the value sent is not \<open>undefined\<close>, so \<open>currentTrackId\<close>
  may become \<open>null\<close> and \<open>currentTime\<close> and \<open>volume\<close> take any value.
\<close>

theorem post_session_no_validation:
  "(b ''currentSide'' = Some v \<longrightarrow>
      currentSide (userSession (snd (post_session b st)))
        = (if truthy v then v else currentSide (userSession st)))
   \<and> (b ''currentSide'' = Some (JStr []) \<longrightarrow>
      currentSide (userSession (snd (post_session b st))) = currentSide (userSession st))
   \<and> (b ''currentSide'' = Some (JStr ''C'') \<longrightarrow>
      currentSide (userSession (snd (post_session b st))) = JStr ''C'')
   \<and> (b ''currentTrackId'' = Some w \<and> w \<noteq> JUndefined \<longrightarrow>
      currentTrackId (userSession (snd (post_session b st))) = w)
   \<and> (b ''currentTrackId'' = Some JNull \<longrightarrow>
      currentTrackId (userSession (snd (post_session b st))) = JNull)
   \<and> (b ''currentTime'' = Some w \<and> w \<noteq> JUndefined \<longrightarrow>
      currentTime (userSession (snd (post_session b st))) = w)
   \<and> (b ''volume'' = Some w \<and> w \<noteq> JUndefined \<longrightarrow>
      volume (userSession (snd (post_session b st))) = w)
   \<and> (b ''tapeMode'' = Some w \<and> w \<noteq> JUndefined \<longrightarrow>
      tapeMode (userSession (snd (post_session b st))) = w)
   \<and> (b ''isPlaying'' = Some w \<and> w \<noteq> JUndefined \<longrightarrow>
      isPlaying (userSession (snd (post_session b st))) = w)
   \<and> statusOf (fst (post_session b st)) = Some 200"
  by (simp add: session_update_simps post_session_response getProp_def statusOf_def)

theorem post_session_no_validation_witness:
  "currentSide (userSession (snd (post_session
      [''currentSide'' \<mapsto> JStr [], ''volume'' \<mapsto> JNum (Fin (- 5))] initialState))) = JStr ''A''
   \<and> volume (userSession (snd (post_session
      [''currentSide'' \<mapsto> JStr [], ''volume'' \<mapsto> JNum (Fin (- 5))] initialState)))
       = JNum (Fin (- 5))
   \<and> currentSide (userSession (snd (post_session
      [''currentSide'' \<mapsto> JStr ''C'', ''currentTrackId'' \<mapsto> JNull] initialState))) = JStr ''C''
   \<and> currentTrackId (userSession (snd (post_session
      [''currentSide'' \<mapsto> JStr ''C'', ''currentTrackId'' \<mapsto> JNull] initialState))) = JNull"
  using
    post_session_no_validation
      [of "[''currentSide'' \<mapsto> JStr [], ''volume'' \<mapsto> JNum (Fin (- 5))]" "JStr []"
          initialState "JNum (Fin (- 5))"]
    post_session_no_validation
      [of "[''currentSide'' \<mapsto> JStr ''C'', ''currentTrackId'' \<mapsto> JNull]" "JStr ''C''"
          initialState JNull]
  by (simp add: initialState_def defaultSession_def)

section \<open>The scanner\<close>

lemma grows_refl: "grows e st st"
  by (simp add: grows_def)

lemma grows_newCalls: "grows e st st' \<Longrightarrow> calls st' = calls st @ newCalls st st'"
  by (auto simp add: grows_def newCalls_def)

lemma grows_trans:
  assumes ab: "grows e a b" and bc: "grows e b c"
  shows "grows e a c"
proof -
  from ab obtain ev1 where
    u1: "userSession b = userSession a"
    and k1: "\<And>q x. metadataCache a q = Some x \<Longrightarrow> metadataCache b q = Some x"
    and c1: "calls b = calls a @ ev1"
    and p1: "\<And>q. ParseFile q \<in> set ev1 \<Longrightarrow> metadataCache a q = None"
    and n1: "\<And>q x. metadataCache a q = None \<Longrightarrow> metadataCache b q = Some x \<Longrightarrow>
                 ParseFile q \<in> set ev1 \<and> fromTags e q x"
    unfolding grows_def by blast
  from bc obtain ev2 where
    u2: "userSession c = userSession b"
    and k2: "\<And>q x. metadataCache b q = Some x \<Longrightarrow> metadataCache c q = Some x"
    and c2: "calls c = calls b @ ev2"
    and p2: "\<And>q. ParseFile q \<in> set ev2 \<Longrightarrow> metadataCache b q = None"
    and n2: "\<And>q x. metadataCache b q = None \<Longrightarrow> metadataCache c q = Some x \<Longrightarrow>
                 ParseFile q \<in> set ev2 \<and> fromTags e q x"
    unfolding grows_def by blast
  have calls: "calls c = calls a @ (ev1 @ ev2)" using c1 c2 by simp
  have parsed: "\<And>q. ParseFile q \<in> set (ev1 @ ev2) \<Longrightarrow> metadataCache a q = None"
  proof -
    fix q assume "ParseFile q \<in> set (ev1 @ ev2)"
    then consider "ParseFile q \<in> set ev1" | "ParseFile q \<in> set ev2" by auto
    then show "metadataCache a q = None"
    proof cases
      case 1 then show ?thesis by (rule p1)
    next
      case 2
      then have "metadataCache b q = None" by (rule p2)
      then show ?thesis using k1 [of q] by (cases "metadataCache a q") auto
    qed
  qed
  have new: "\<And>q x. metadataCache a q = None \<Longrightarrow> metadataCache c q = Some x \<Longrightarrow>
                 ParseFile q \<in> set (ev1 @ ev2) \<and> fromTags e q x"
  proof -
    fix q x assume a: "metadataCache a q = None" and c: "metadataCache c q = Some x"
    show "ParseFile q \<in> set (ev1 @ ev2) \<and> fromTags e q x"
    proof (cases "metadataCache b q")
      case None
      from n2 [OF None c] show ?thesis by simp
    next
      case (Some y)
      from k2 [OF Some] c have "y = x" by simp
      with n1 [OF a Some] show ?thesis by simp
    qed
  qed
  show ?thesis
    unfolding grows_def
    using u1 u2 k1 k2 calls parsed new by (intro conjI exI [of _ "ev1 @ ev2"]) auto
qed

lemma grows_newCalls_mono:
  "grows e a b \<Longrightarrow> grows e b c \<Longrightarrow> set (newCalls a b) \<subseteq> set (newCalls a c)"
  by (auto simp add: grows_def newCalls_def)

lemma grows_parsed_only_missing:
  "grows e st st' \<Longrightarrow> ParseFile q \<in> set (newCalls st st') \<Longrightarrow> metadataCache st q = None"
  by (auto simp add: grows_def newCalls_def)

lemma grows_kept:
  "grows e st st' \<Longrightarrow> metadataCache st q = Some c \<Longrightarrow> metadataCache st' q = Some c"
  by (simp add: grows_def)

lemma grows_new_entry:
  "grows e st st' \<Longrightarrow> metadataCache st q = None \<Longrightarrow> metadataCache st' q = Some c \<Longrightarrow>
     ParseFile q \<in> set (newCalls st st') \<and> fromTags e q c"
  by (auto simp add: grows_def newCalls_def)

lemma lastSegment_path_join:
  "CHR ''/'' \<notin> set file \<Longrightarrow> lastSegment (path_join folder file) = file"
proof -
  assume a: "CHR ''/'' \<notin> set file"
  have "rev (path_join folder file) = rev file @ CHR ''/'' # rev folder"
    by (simp add: path_join_def)
  moreover have "takeWhile (\<lambda>c. c \<noteq> CHR ''/'') (rev file @ CHR ''/'' # rev folder) = rev file"
  proof -
    have "takeWhile (\<lambda>c. c \<noteq> CHR ''/'') (rev file @ CHR ''/'' # rev folder)
            = rev file @ takeWhile (\<lambda>c. c \<noteq> CHR ''/'') (CHR ''/'' # rev folder)"
      using a by (intro takeWhile_append2) auto
    then show ?thesis by simp
  qed
  ultimately show ?thesis by (simp add: lastSegment_def)
qed

lemma extractAlbumCover_effect:
  "extractAlbumCover e p tid st = (cover, st') \<Longrightarrow>
     userSession st' = userSession st \<and> metadataCache st' = metadataCache st
     \<and> (\<exists>evs. calls st' = calls st @ ParseFile p # evs \<and> (\<forall>q. ParseFile q \<notin> set evs))"
  by (auto simp add: extractAlbumCover_def logCall_def Let_def
           split: sum.splits option.splits list.splits if_splits)

lemma readMetadata_hit:
  "metadataCache st p = Some c \<Longrightarrow>
   readMetadata e p tid file st =
     ((orElse (c_title c) (defaultTitle file), orElse (c_artist c) ''Unknown Artist'',
       orElse (c_album c) ''Unknown Album'', c_albumCover c), st)"
  by (simp add: readMetadata_def)

lemma readMetadata_parse_fails:
  "metadataCache st p = None \<Longrightarrow> parseFile e p = Inl err \<Longrightarrow>
   readMetadata e p tid file st =
     ((defaultTitle file, ''Unknown Artist'', ''Unknown Album'', None), logCall (ParseFile p) st)"
  by (simp add: readMetadata_def Let_def)

lemma readMetadata_parse_ok:
  "metadataCache st p = None \<Longrightarrow> parseFile e p = Inr md \<Longrightarrow>
   extractAlbumCover e p tid (logCall (ParseFile p) st) = (cover, st2) \<Longrightarrow>
   readMetadata e p tid file st =
     ((tagOr (tag_title md) (defaultTitle file), tagOr (tag_artist md) ''Unknown Artist'',
       tagOr (tag_album md) ''Unknown Album'', cover),
      st2\<lparr> metadataCache := (metadataCache st2)(p \<mapsto>
            \<lparr> c_title = tagOr (tag_title md) (defaultTitle file),
              c_artist = tagOr (tag_artist md) ''Unknown Artist'',
              c_album = tagOr (tag_album md) ''Unknown Album'',
              c_albumCover = cover \<rparr>) \<rparr>)"
  by (simp add: readMetadata_def Let_def)

lemma readMetadata_grows:
  assumes seg: "lastSegment p = file"
  shows "grows e st (snd (readMetadata e p tid file st))"
proof (cases "metadataCache st p")
  case (Some c)
  then show ?thesis by (simp add: readMetadata_hit grows_refl)
next
  case None
  show ?thesis
  proof (cases "parseFile e p")
    case (Inl err)
    with None show ?thesis
      by (simp add: readMetadata_parse_fails grows_def logCall_def)
  next
    case (Inr md)
    obtain cover st2 where x: "extractAlbumCover e p tid (logCall (ParseFile p) st) = (cover, st2)"
      by (cases "extractAlbumCover e p tid (logCall (ParseFile p) st)")
    from extractAlbumCover_effect [OF x] obtain evs where
      u: "userSession st2 = userSession st"
      and m: "metadataCache st2 = metadataCache st"
      and c: "calls st2 = calls st @ ParseFile p # ParseFile p # evs"
      and n: "\<forall>q. ParseFile q \<notin> set evs"
      by (auto simp add: logCall_def)
    show ?thesis
      unfolding readMetadata_parse_ok [OF None Inr x] grows_def
      using u m c n None Inr seg
      by (intro conjI exI [of _ "ParseFile p # ParseFile p # evs"])
         (auto simp add: fromTags_def)
  qed
qed

lemma processFile_grows:
  "CHR ''/'' \<notin> set file \<Longrightarrow> grows e st (snd (processFile e folder side index file st))"
proof -
  assume "CHR ''/'' \<notin> set file"
  then have seg: "lastSegment (path_join folder file) = file" by (rule lastSegment_path_join)
  show ?thesis
  proof (cases "statSync e (path_join folder file)")
    case (Inl err)
    then show ?thesis by (simp add: processFile_def grows_refl)
  next
    case (Inr sz)
    then show ?thesis
      using readMetadata_grows [OF seg, of e st "mkId side index"]
      by (auto simp add: processFile_def Let_def split: prod.splits)
  qed
qed

lemma digit_inj: "a < 10 \<Longrightarrow> b < 10 \<Longrightarrow> digit a = digit b \<Longrightarrow> a = b"
proof -
  assume a: "a < 10" and b: "b < 10" and eq: "digit a = digit b"
  have d: "distinct ''0123456789''" by simp
  have "a < length ''0123456789''" "b < length ''0123456789''" using a b by simp_all
  with d eq show "a = b" unfolding digit_def by (simp only: nth_eq_iff_index_eq)
qed

lemma string_of_nat_nonempty: "string_of_nat n \<noteq> []"
  by (subst string_of_nat.simps) simp

lemma string_of_nat_small: "n < 10 \<Longrightarrow> string_of_nat n = [digit n]"
  by (subst string_of_nat.simps) simp

lemma string_of_nat_large:
  "\<not> n < 10 \<Longrightarrow> string_of_nat n = string_of_nat (n div 10) @ [digit (n mod 10)]"
  by (subst string_of_nat.simps) simp

lemma string_of_nat_inj: "string_of_nat n = string_of_nat m \<Longrightarrow> n = m"
proof (induction n arbitrary: m rule: string_of_nat.induct)
  case (1 n)
  show ?case
  proof (cases "n < 10")
    case nsmall: True
    show ?thesis
    proof (cases "m < 10")
      case True
      with nsmall "1.prems" show ?thesis
        by (simp add: string_of_nat_small digit_inj)
    next
      case False
      with nsmall "1.prems" string_of_nat_nonempty [of "m div 10"] show ?thesis
        by (simp add: string_of_nat_small string_of_nat_large)
    qed
  next
    case nlarge: False
    show ?thesis
    proof (cases "m < 10")
      case True
      with nlarge "1.prems" string_of_nat_nonempty [of "n div 10"] show ?thesis
        by (simp add: string_of_nat_small string_of_nat_large)
    next
      case False
      with nlarge "1.prems" have
        eq: "string_of_nat (n div 10) = string_of_nat (m div 10)"
        and dg: "digit (n mod 10) = digit (m mod 10)"
        by (simp_all add: string_of_nat_large)
      from "1.IH" [OF nlarge eq] have q: "n div 10 = m div 10" .
      from dg have r: "n mod 10 = m mod 10" by (simp add: digit_inj)
      from q r show ?thesis by (metis div_mult_mod_eq)
    qed
  qed
qed

lemma mkId_inj: "mkId side i = mkId side j \<Longrightarrow> i = j"
  by (simp add: mkId_def string_of_nat_inj)

lemma audioPositions_Nil: "audioPositions [] = []"
  by (simp add: audioPositions_def)

lemma audioPositions_Cons:
  "audioPositions (f # fs) = (if isAudio f then [0] else []) @ map Suc (audioPositions fs)"
proof -
  have "[0 ..< length (f # fs)] = 0 # map Suc [0 ..< length fs]"
    by (simp add: upt_conv_Cons map_Suc_upt del: upt_Suc)
  then show ?thesis
    by (simp add: audioPositions_def filter_map comp_def)
qed

lemma audioPositions_distinct: "distinct (audioPositions files)"
  by (simp add: audioPositions_def)

lemma processFile_ok:
  "processFile e folder side index file st = (Inr t, st') \<Longrightarrow>
     trackId t = mkId side index \<and> trackNumber t = index + 1 \<and> filename t = file"
  by (auto simp add: processFile_def Let_def split: sum.splits prod.splits)

lemma scanLoop_shape:
  "scanLoop e folder side index files acc st = (Inr ts, st') \<Longrightarrow>
     map trackId ts = map trackId acc @ map (\<lambda>i. mkId side (index + i)) (audioPositions files)
     \<and> map trackNumber ts = map trackNumber acc @ map (\<lambda>i. index + i + 1) (audioPositions files)
     \<and> map filename ts = map filename acc @ filter isAudio files"
proof (induction files arbitrary: index acc st)
  case Nil
  then show ?case by (simp add: audioPositions_Nil)
next
  case (Cons f fs)
  show ?case
  proof (cases "isAudio f")
    case False
    with Cons.prems have "scanLoop e folder side (index + 1) fs acc st = (Inr ts, st')" by simp
    from Cons.IH [OF this] False show ?thesis
      by (simp add: audioPositions_Cons comp_def)
  next
    case True
    obtain r st1 where pf: "processFile e folder side index f st = (r, st1)"
      by (cases "processFile e folder side index f st")
    show ?thesis
    proof (cases r)
      case (Inl err)
      with Cons.prems True pf show ?thesis by simp
    next
      case (Inr t)
      with Cons.prems True pf have
        "scanLoop e folder side (index + 1) fs (acc @ [t]) st1 = (Inr ts, st')" by simp
      from Cons.IH [OF this] processFile_ok [OF pf [unfolded Inr]] True show ?thesis
        by (simp add: audioPositions_Cons comp_def)
    qed
  qed
qed

lemma getSongsFromFolder_shape:
  "getSongsFromFolder e folder side st = (Inr ts, st') \<Longrightarrow>
     (\<exists>files. (if existsSync e folder then readdirSync e folder = Inr files else files = [])
        \<and> map trackId ts = map (mkId side) (audioPositions files)
        \<and> map trackNumber ts = map Suc (audioPositions files)
        \<and> map filename ts = filter isAudio files)"
proof (cases "existsSync e folder")
  case False
  assume "getSongsFromFolder e folder side st = (Inr ts, st')"
  with False have "ts = []" by (simp add: getSongsFromFolder_def)
  with False show ?thesis by (simp add: audioPositions_Nil)
next
  case True
  assume g: "getSongsFromFolder e folder side st = (Inr ts, st')"
  with True obtain files where r: "readdirSync e folder = Inr files"
    by (cases "readdirSync e folder") (auto simp add: getSongsFromFolder_def)
  with g True have "scanLoop e folder side 0 files [] st = (Inr ts, st')"
    by (simp add: getSongsFromFolder_def)
  from scanLoop_shape [OF this] True r show ?thesis by simp
qed

lemma orElse_tagOr: "orElse (tagOr x d) d = tagOr x d"
  by (simp add: orElse_def tagOr_def split: option.splits)

lemma newCalls_append:
  "calls st = calls st0 @ xs \<Longrightarrow> calls st1 = calls st @ evs \<Longrightarrow> newCalls st0 st1 = xs @ evs"
  by (simp add: newCalls_def)

lemma scanned_mono:
  "scanned e st0 st folder t \<Longrightarrow> grows e st0 st \<Longrightarrow> grows e st st1 \<Longrightarrow>
     scanned e st0 st1 folder t"
  using grows_newCalls_mono [of e st0 st st1]
    grows_kept [of e st st1 "path_join folder (filename t)"]
  by (auto simp add: scanned_def split: option.splits sum.splits)

lemma processFile_fields:
  "processFile e folder side index file st = (Inr t, st1) \<Longrightarrow>
     filename t = file
     \<and> ((title t, artist t, album t, albumCover t), st1)
         = readMetadata e (path_join folder file) (mkId side index) file st"
  by (auto simp add: processFile_def Let_def split: sum.splits prod.splits)

lemma processFile_scanned:
  assumes pf: "processFile e folder side index file st = (Inr t, st1)"
    and g: "grows e st0 st"
    and nosep: "CHR ''/'' \<notin> set file"
  shows "scanned e st0 st1 folder t"
proof -
  let ?p = "path_join folder file"
  from processFile_fields [OF pf] have fn: "filename t = file"
    and rm: "readMetadata e ?p (mkId side index) file st
               = ((title t, artist t, album t, albumCover t), st1)"
    by simp_all
  from nosep have seg: "lastSegment ?p = file" by (rule lastSegment_path_join)
  have g1: "grows e st st1"
    using processFile_grows [OF nosep, of e st folder side index] pf by simp
  have g01: "grows e st0 st1" using g g1 by (rule grows_trans)
  show ?thesis
  proof (cases "metadataCache st0 ?p")
    case (Some c)
    with g have "metadataCache st ?p = Some c" by (simp add: grows_kept)
    from rm [unfolded readMetadata_hit [OF this]] Some fn show ?thesis
      by (simp add: scanned_def)
  next
    case None
    show ?thesis
    proof (cases "metadataCache st ?p")
      case now: None
      have logged: "ParseFile ?p \<in> set (newCalls st0 st1)"
      proof (cases "parseFile e ?p")
        case (Inl err)
        from rm [unfolded readMetadata_parse_fails [OF now Inl]]
        have "calls st1 = calls st @ [ParseFile ?p]" by (auto simp add: logCall_def)
        from newCalls_append [OF grows_newCalls [OF g] this] show ?thesis by simp
      next
        case (Inr md)
        obtain cover st2 where
          x: "extractAlbumCover e ?p (mkId side index) (logCall (ParseFile ?p) st) = (cover, st2)"
          by (cases "extractAlbumCover e ?p (mkId side index) (logCall (ParseFile ?p) st)")
        from rm [unfolded readMetadata_parse_ok [OF now Inr x]]
        have "calls st1 = calls st2" by auto
        with extractAlbumCover_effect [OF x] obtain evs where
          "calls st1 = calls st @ (ParseFile ?p # ParseFile ?p # evs)"
          by (auto simp add: logCall_def)
        from newCalls_append [OF grows_newCalls [OF g] this] show ?thesis by simp
      qed
      show ?thesis
      proof (cases "parseFile e ?p")
        case (Inl err)
        from rm [unfolded readMetadata_parse_fails [OF now Inl]] None Inl fn logged
        show ?thesis by (simp add: scanned_def)
      next
        case (Inr md)
        obtain cover st2 where
          x: "extractAlbumCover e ?p (mkId side index) (logCall (ParseFile ?p) st) = (cover, st2)"
          by (cases "extractAlbumCover e ?p (mkId side index) (logCall (ParseFile ?p) st)")
        from rm [unfolded readMetadata_parse_ok [OF now Inr x]]
        have stored: "metadataCache st1 ?p \<noteq> None" by auto
        from rm [unfolded readMetadata_parse_ok [OF now Inr x]] None Inr fn logged stored
        show ?thesis by (simp add: scanned_def)
      qed
    next
      case (Some c)
      from grows_new_entry [OF g None Some] have
        inlog: "ParseFile ?p \<in> set (newCalls st0 st)" and ft: "fromTags e ?p c" by simp_all
      from ft obtain md where md: "parseFile e ?p = Inr md"
        and ct: "c_title c = tagOr (tag_title md) (defaultTitle file)"
        and ca: "c_artist c = tagOr (tag_artist md) ''Unknown Artist''"
        and cl: "c_album c = tagOr (tag_album md) ''Unknown Album''"
        unfolding fromTags_def seg by blast
      from inlog grows_newCalls_mono [OF g g1] have "ParseFile ?p \<in> set (newCalls st0 st1)"
        by blast
      moreover from grows_kept [OF g1 Some] have "metadataCache st1 ?p \<noteq> None" by simp
      ultimately show ?thesis
        using rm [unfolded readMetadata_hit [OF Some]] None md fn ct ca cl
        by (simp add: scanned_def orElse_tagOr)
    qed
  qed
qed

lemma scanLoop_grows:
  "\<forall>f \<in> set files. CHR ''/'' \<notin> set f \<Longrightarrow>
     grows e st (snd (scanLoop e folder side index files acc st))"
proof (induction files arbitrary: index acc st)
  case Nil
  show ?case by (simp add: grows_refl)
next
  case (Cons f fs)
  from Cons.prems have nosep: "CHR ''/'' \<notin> set f" and rest: "\<forall>f \<in> set fs. CHR ''/'' \<notin> set f"
    by simp_all
  show ?case
  proof (cases "isAudio f")
    case False
    with Cons.IH [OF rest] show ?thesis by simp
  next
    case True
    obtain r st1 where pf: "processFile e folder side index f st = (r, st1)"
      by (cases "processFile e folder side index f st")
    have g1: "grows e st st1"
      using processFile_grows [OF nosep, of e st folder side index] pf by simp
    show ?thesis
    proof (cases r)
      case (Inl err)
      with True pf g1 show ?thesis by simp
    next
      case (Inr t)
      from grows_trans [OF g1 Cons.IH [OF rest, of st1 "index + 1" "acc @ [t]"]]
      show ?thesis using True pf Inr by simp
    qed
  qed
qed

lemma scanLoop_scanned:
  "scanLoop e folder side index files acc st = (Inr ts, st') \<Longrightarrow>
   grows e st0 st \<Longrightarrow>
   \<forall>f \<in> set files. CHR ''/'' \<notin> set f \<Longrightarrow>
   \<forall>t \<in> set acc. scanned e st0 st folder t \<Longrightarrow>
     \<forall>t \<in> set ts. scanned e st0 st' folder t"
proof (induction files arbitrary: index acc st)
  case Nil
  then show ?case by simp
next
  case (Cons f fs)
  from Cons.prems(3) have nosep: "CHR ''/'' \<notin> set f"
    and rest: "\<forall>f \<in> set fs. CHR ''/'' \<notin> set f" by simp_all
  show ?case
  proof (cases "isAudio f")
    case False
    with Cons.prems(1) have "scanLoop e folder side (index + 1) fs acc st = (Inr ts, st')"
      by simp
    from Cons.IH [OF this Cons.prems(2) rest Cons.prems(4)] show ?thesis .
  next
    case True
    obtain r st1 where pf: "processFile e folder side index f st = (r, st1)"
      by (cases "processFile e folder side index f st")
    have g1: "grows e st st1"
      using processFile_grows [OF nosep, of e st folder side index] pf by simp
    have g01: "grows e st0 st1" using Cons.prems(2) g1 by (rule grows_trans)
    show ?thesis
    proof (cases r)
      case (Inl err)
      with Cons.prems(1) True pf show ?thesis by simp
    next
      case (Inr t)
      with Cons.prems(1) True pf have
        loop: "scanLoop e folder side (index + 1) fs (acc @ [t]) st1 = (Inr ts, st')" by simp
      have new: "scanned e st0 st1 folder t"
        using pf [unfolded Inr] Cons.prems(2) nosep by (rule processFile_scanned)
      have old: "\<forall>t \<in> set acc. scanned e st0 st1 folder t"
        using Cons.prems(4) Cons.prems(2) g1 by (blast intro: scanned_mono)
      from new old have "\<forall>t \<in> set (acc @ [t]). scanned e st0 st1 folder t" by simp
      from Cons.IH [OF loop g01 rest this] show ?thesis .
    qed
  qed
qed

lemma entryNames_listing:
  "entryNames e \<Longrightarrow> readdirSync e d = Inr files \<Longrightarrow> \<forall>f \<in> set files. CHR ''/'' \<notin> set f"
  unfolding entryNames_def by blast

lemma getSongsFromFolder_grows:
  assumes "entryNames e"
  shows "grows e st (snd (getSongsFromFolder e folder side st))"
proof (cases "existsSync e folder")
  case False
  then show ?thesis by (simp add: getSongsFromFolder_def grows_refl)
next
  case True
  show ?thesis
  proof (cases "readdirSync e folder")
    case (Inl err)
    with True show ?thesis by (simp add: getSongsFromFolder_def grows_refl)
  next
    case (Inr files)
    from entryNames_listing [OF assms Inr] have "\<forall>f \<in> set files. CHR ''/'' \<notin> set f" .
    from scanLoop_grows [OF this] True Inr show ?thesis
      by (simp add: getSongsFromFolder_def)
  qed
qed

lemma getSongsFromFolder_scanned:
  assumes g: "getSongsFromFolder e folder side st = (Inr ts, st')"
    and names: "entryNames e"
    and before: "grows e st0 st"
  shows "\<forall>t \<in> set ts. scanned e st0 st' folder t"
proof (cases "existsSync e folder")
  case False
  with g show ?thesis by (simp add: getSongsFromFolder_def)
next
  case True
  with g obtain files where r: "readdirSync e folder = Inr files"
    by (cases "readdirSync e folder") (auto simp add: getSongsFromFolder_def)
  with g True have loop: "scanLoop e folder side 0 files [] st = (Inr ts, st')"
    by (simp add: getSongsFromFolder_def)
  from entryNames_listing [OF names r] have "\<forall>f \<in> set files. CHR ''/'' \<notin> set f" .
  from scanLoop_scanned [OF loop before this] show ?thesis by simp
qed

lemma loadMusicFiles_split:
  assumes "fst (loadMusicFiles e st) = Inr pl"
  shows "\<exists>st1. getSongsFromFolder e (sideAFolder e) ''A'' st = (Inr (sideA pl), st1)
           \<and> getSongsFromFolder e (sideBFolder e) ''B'' st1 = (Inr (sideB pl), snd (loadMusicFiles e st))"
proof -
  obtain ra st1 where a: "getSongsFromFolder e (sideAFolder e) ''A'' st = (ra, st1)"
    by (cases "getSongsFromFolder e (sideAFolder e) ''A'' st")
  obtain rb st2 where b: "getSongsFromFolder e (sideBFolder e) ''B'' st1 = (rb, st2)"
    by (cases "getSongsFromFolder e (sideBFolder e) ''B'' st1")
  from assms a b show ?thesis
    by (cases ra; cases rb) (auto simp add: loadMusicFiles_def)
qed

lemma loadMusicFiles_grows:
  assumes "entryNames e"
  shows "grows e st (snd (loadMusicFiles e st))"
proof -
  obtain ra st1 where a: "getSongsFromFolder e (sideAFolder e) ''A'' st = (ra, st1)"
    by (cases "getSongsFromFolder e (sideAFolder e) ''A'' st")
  obtain rb st2 where b: "getSongsFromFolder e (sideBFolder e) ''B'' st1 = (rb, st2)"
    by (cases "getSongsFromFolder e (sideBFolder e) ''B'' st1")
  have g1: "grows e st st1"
    using getSongsFromFolder_grows [OF assms, of st "sideAFolder e" "''A''"] a by simp
  have g2: "grows e st1 st2"
    using getSongsFromFolder_grows [OF assms, of st1 "sideBFolder e" "''B''"] b by simp
  have g12: "grows e st st2" using g1 g2 by (rule grows_trans)
  from a b g1 g12 show ?thesis
    by (cases ra; cases rb) (simp_all add: loadMusicFiles_def)
qed

lemma loadMusicFiles_scanned:
  assumes ok: "fst (loadMusicFiles e st) = Inr pl" and names: "entryNames e"
  shows "(\<forall>t \<in> set (sideA pl). scanned e st (snd (loadMusicFiles e st)) (sideAFolder e) t)
       \<and> (\<forall>t \<in> set (sideB pl). scanned e st (snd (loadMusicFiles e st)) (sideBFolder e) t)"
proof -
  from loadMusicFiles_split [OF ok] obtain st1 where
    a: "getSongsFromFolder e (sideAFolder e) ''A'' st = (Inr (sideA pl), st1)"
    and b: "getSongsFromFolder e (sideBFolder e) ''B'' st1 = (Inr (sideB pl), snd (loadMusicFiles e st))"
    by blast
  have g1: "grows e st st1"
    using getSongsFromFolder_grows [OF names, of st "sideAFolder e" "''A''"] a by simp
  have g2: "grows e st1 (snd (loadMusicFiles e st))"
    using getSongsFromFolder_grows [OF names, of st1 "sideBFolder e" "''B''"] b by simp
  from getSongsFromFolder_scanned [OF a names grows_refl]
  have "\<forall>t \<in> set (sideA pl). scanned e st st1 (sideAFolder e) t" .
  then have sa: "\<forall>t \<in> set (sideA pl). scanned e st (snd (loadMusicFiles e st)) (sideAFolder e) t"
    using g1 g2 by (blast intro: scanned_mono)
  from getSongsFromFolder_scanned [OF b names g1]
  have sb: "\<forall>t \<in> set (sideB pl). scanned e st (snd (loadMusicFiles e st)) (sideBFolder e) t" .
  from sa sb show ?thesis by simp
qed

lemma tagOr_nonempty: "d \<noteq> [] \<Longrightarrow> tagOr x d \<noteq> []"
  by (simp add: tagOr_def split: option.splits)

lemma tagOr_empty: "tagOr x d = [] \<Longrightarrow> d = []"
  by (simp add: tagOr_def split: option.splits if_splits)

lemma cacheOk_grows:
  assumes ok: "cacheOk st" and g: "grows e st st'"
  shows "cacheOk st'"
  unfolding cacheOk_def
proof (intro allI impI)
  fix p c
  assume now: "metadataCache st' p = Some c"
  show "c_artist c \<noteq> [] \<and> c_album c \<noteq> [] \<and> (c_title c = [] \<longrightarrow> defaultTitle (lastSegment p) = [])"
  proof (cases "metadataCache st p")
    case (Some c0)
    from grows_kept [OF g Some] now have "c0 = c" by simp
    with ok Some show ?thesis unfolding cacheOk_def by blast
  next
    case None
    from grows_new_entry [OF g None now] have "fromTags e p c" by simp
    then obtain md :: common where
      ct: "c_title c = tagOr (tag_title md) (defaultTitle (lastSegment p))"
      and ca: "c_artist c = tagOr (tag_artist md) ''Unknown Artist''"
      and cl: "c_album c = tagOr (tag_album md) ''Unknown Album''"
      unfolding fromTags_def by blast
    have "c_artist c \<noteq> []" unfolding ca by (rule tagOr_nonempty) simp
    moreover have "c_album c \<noteq> []" unfolding cl by (rule tagOr_nonempty) simp
    moreover have "c_title c = [] \<longrightarrow> defaultTitle (lastSegment p) = []"
      unfolding ct by (blast dest: tagOr_empty)
    ultimately show ?thesis by simp
  qed
qed

lemma cacheOk_empty: "cacheOk (st\<lparr> metadataCache := Map.empty \<rparr>)"
  by (simp add: cacheOk_def)

lemma scan_handlers_state:
  "snd (get_health e st) = snd (loadMusicFiles e st)"
  "snd (get_playlists e st) = snd (loadMusicFiles e st)"
  "snd (get_playlists_side e param st) = snd (loadMusicFiles e st)"
  "snd (post_refresh e st) = snd (loadMusicFiles e (st\<lparr> metadataCache := Map.empty \<rparr>))"
  by (auto simp add: get_health_def get_playlists_def get_playlists_side_def post_refresh_def
        Let_def split: prod.splits sum.splits)

lemma handle_cache:
  assumes names: "entryNames e"
  shows "(r \<noteq> PostRefresh \<longrightarrow> grows e st (snd (handle e r st)) \<or>
            (metadataCache (snd (handle e r st)) = metadataCache st
             \<and> calls (snd (handle e r st)) = calls st))
       \<and> (r = PostRefresh \<longrightarrow>
            grows e (st\<lparr> metadataCache := Map.empty \<rparr>) (snd (handle e r st)))"
proof (cases r)
  case GetHealth
  with loadMusicFiles_grows [OF names, of st] show ?thesis
    by (simp add: scan_handlers_state)
next
  case GetPlaylists
  with loadMusicFiles_grows [OF names, of st] show ?thesis
    by (simp add: scan_handlers_state)
next
  case (GetPlaylistsSide param)
  with loadMusicFiles_grows [OF names, of st] show ?thesis
    by (simp add: scan_handlers_state)
next
  case GetSession
  then show ?thesis by (simp add: get_session_def)
next
  case (PostSession b)
  then show ?thesis by (simp add: post_session_def Let_def)
next
  case (PutTapeMode b)
  then show ?thesis by (simp add: put_tape_mode_def Let_def)
next
  case (PutVolume b)
  then show ?thesis by (simp add: put_volume_def Let_def)
next
  case PostRefresh
  with loadMusicFiles_grows [OF names, of "st\<lparr> metadataCache := Map.empty \<rparr>"] show ?thesis
    by (simp add: scan_handlers_state)
next
  case PostSessionReset
  then show ?thesis by (simp add: post_session_reset_def)
qed

lemma handle_keeps_entries:
  assumes "entryNames e" "r \<noteq> PostRefresh" "metadataCache st p = Some c"
  shows "metadataCache (snd (handle e r st)) p = Some c"
  using handle_cache [OF assms(1), of r st] assms(2,3) by (auto dest: grows_kept)

lemma handle_cacheOk:
  assumes names: "entryNames e" and ok: "cacheOk st"
  shows "cacheOk (snd (handle e r st))"
proof (cases "r = PostRefresh")
  case True
  with handle_cache [OF names, of r st] cacheOk_empty [of st] show ?thesis
    by (blast intro: cacheOk_grows)
next
  case False
  with handle_cache [OF names, of r st] consider
    "grows e st (snd (handle e r st))" | "metadataCache (snd (handle e r st)) = metadataCache st"
    by blast
  then show ?thesis
  proof cases
    case 1 with ok show ?thesis by (rule cacheOk_grows)
  next
    case 2 with ok show ?thesis by (simp add: cacheOk_def)
  qed
qed

lemma reachable_cacheOk: "reachable st \<Longrightarrow> cacheOk st"
proof (induction rule: reachable.induct)
  case start
  show ?case by (simp add: cacheOk_def initialState_def)
next
  case (startup st e)
  from startup.IH loadMusicFiles_grows [OF startup.hyps(2)] show ?case by (rule cacheOk_grows)
next
  case (request st e r)
  from request.hyps(2) request.IH show ?case by (rule handle_cacheOk)
qed





lemma getSongsFromFolder_listing:
  "getSongsFromFolder e folder side st = (Inr ts, st') \<Longrightarrow>
     \<exists>files. listing e folder = Inr files
        \<and> map trackId ts = map (mkId side) (audioPositions files)
        \<and> map trackNumber ts = map Suc (audioPositions files)
        \<and> map filename ts = filter isAudio files"
  using getSongsFromFolder_shape [of e folder side st ts st']
  by (auto simp add: listing_def split: if_splits)

lemma loadMusicFiles_listing:
  assumes "fst (loadMusicFiles e st) = Inr pl"
  shows "\<exists>filesA filesB.
           listing e (sideAFolder e) = Inr filesA \<and> listing e (sideBFolder e) = Inr filesB
           \<and> map trackId (sideA pl) = map (mkId ''A'') (audioPositions filesA)
           \<and> map trackId (sideB pl) = map (mkId ''B'') (audioPositions filesB)
           \<and> map trackNumber (sideA pl) = map Suc (audioPositions filesA)
           \<and> map trackNumber (sideB pl) = map Suc (audioPositions filesB)
           \<and> map filename (sideA pl) = filter isAudio filesA
           \<and> map filename (sideB pl) = filter isAudio filesB"
proof -
  from loadMusicFiles_split [OF assms] obtain st1 where
    a: "getSongsFromFolder e (sideAFolder e) ''A'' st = (Inr (sideA pl), st1)"
    and b: "getSongsFromFolder e (sideBFolder e) ''B'' st1 = (Inr (sideB pl), snd (loadMusicFiles e st))"
    by blast
  from getSongsFromFolder_listing [OF a] getSongsFromFolder_listing [OF b] show ?thesis
    by blast
qed

lemma ids_distinct: "distinct (map (mkId side) (audioPositions files))"
  by (simp add: distinct_map audioPositions_distinct inj_on_def mkId_inj)

lemma ids_sides_differ: "mkId ''A'' i \<noteq> mkId ''B'' j"
  by (simp add: mkId_def)

text \<open>
  C7. In every scan that returns, the track ids of side A and side B together are
  pairwise distinct; and two scans that see the same directory listings give the same
  ids in the same order, whatever the cache, the tags and the file sizes are.
\<close>

theorem track_ids_unique_and_stable:
  "fst (loadMusicFiles e st) = Inr pl \<Longrightarrow>
     distinct (map trackId (sideA pl @ sideB pl))
     \<and> (\<forall>e' st' pl'.
          fst (loadMusicFiles e' st') = Inr pl'
          \<and> listing e' (sideAFolder e') = listing e (sideAFolder e)
          \<and> listing e' (sideBFolder e') = listing e (sideBFolder e)
          \<longrightarrow> map trackId (sideA pl') = map trackId (sideA pl)
              \<and> map trackId (sideB pl') = map trackId (sideB pl))"
proof -
  assume ok: "fst (loadMusicFiles e st) = Inr pl"
  from loadMusicFiles_listing [OF ok] obtain filesA filesB where
    la: "listing e (sideAFolder e) = Inr filesA" and lb: "listing e (sideBFolder e) = Inr filesB"
    and ia: "map trackId (sideA pl) = map (mkId ''A'') (audioPositions filesA)"
    and ib: "map trackId (sideB pl) = map (mkId ''B'') (audioPositions filesB)"
    by blast
  have "distinct (map trackId (sideA pl @ sideB pl))"
    using ids_sides_differ by (auto simp add: ia ib ids_distinct)
  moreover have "\<forall>e' st' pl'.
          fst (loadMusicFiles e' st') = Inr pl'
          \<and> listing e' (sideAFolder e') = listing e (sideAFolder e)
          \<and> listing e' (sideBFolder e') = listing e (sideBFolder e)
          \<longrightarrow> map trackId (sideA pl') = map trackId (sideA pl)
              \<and> map trackId (sideB pl') = map trackId (sideB pl)"
  proof (intro allI impI)
    fix e' st' pl'
    assume h: "fst (loadMusicFiles e' st') = Inr pl'
          \<and> listing e' (sideAFolder e') = listing e (sideAFolder e)
          \<and> listing e' (sideBFolder e') = listing e (sideBFolder e)"
    from h loadMusicFiles_listing [of e' st' pl'] obtain filesA' filesB' where
      "listing e' (sideAFolder e') = Inr filesA'" "listing e' (sideBFolder e') = Inr filesB'"
      "map trackId (sideA pl') = map (mkId ''A'') (audioPositions filesA')"
      "map trackId (sideB pl') = map (mkId ''B'') (audioPositions filesB')"
      by blast
    with h la lb ia ib show
      "map trackId (sideA pl') = map trackId (sideA pl)
       \<and> map trackId (sideB pl') = map trackId (sideB pl)" by simp
  qed
  ultimately show ?thesis by simp
qed

lemmas scan_eval =
  loadMusicFiles_def getSongsFromFolder_def sideAFolder_def sideBFolder_def musicFolder_def
  coversFolder_def path_join_def exampleEnv_def statOk_def statFails_def noTags_def someTags_def
  isAudio_def extname_def toLowerCase_def toLowerChar_def audioExtensions_def
  processFile_def readMetadata_def extractAlbumCover_def initialState_def logCall_def
  mkId_def string_of_nat.simps digit_def defaultTitle_def trim_def trimStart_def trimEnd_def
  whiteSpaces_def stripPrefixes.simps replaceAll_def
  basename_def suffix_to_prefix encodeURIComponent_def unreserved_def hexDigit_def
  tagOr_def orElse_def Let_def

lemma audioPositions_prefix:
  "n \<le> length files \<Longrightarrow> \<forall>f \<in> set (take n files). isAudio f \<Longrightarrow>
     take n (audioPositions files) = [0 ..< n]"
proof (induction files arbitrary: n)
  case Nil
  then show ?case by (simp add: audioPositions_Nil)
next
  case (Cons f fs)
  show ?case
  proof (cases n)
    case 0
    then show ?thesis by simp
  next
    case (Suc m)
    with Cons.prems have m: "m \<le> length fs" and a: "isAudio f"
      and rest: "\<forall>f \<in> set (take m fs). isAudio f" by simp_all
    from Cons.IH [OF m rest] have "take m (audioPositions fs) = [0 ..< m]" .
    then have "take m (map Suc (audioPositions fs)) = map Suc [0 ..< m]"
      by (simp add: take_map)
    with a Suc show ?thesis
      by (simp add: audioPositions_Cons upt_conv_Cons map_Suc_upt del: upt_Suc)
  qed
qed

lemma ids_of_audio_prefix:
  assumes ids: "map trackId ts = map (mkId side) (audioPositions files)"
    and nums: "map trackNumber ts = map Suc (audioPositions files)"
    and n: "n \<le> length files" and a: "\<forall>f \<in> set (take n files). isAudio f"
  shows "take n (map trackId ts) = map (mkId side) [0 ..< n]
         \<and> take n (map trackNumber ts) = map Suc [0 ..< n]"
  using audioPositions_prefix [OF n a] by (simp add: ids nums take_map)

text \<open>
  C1 (as amended). In every scan that returns, the tracks of a side are the audio entries
  of the directory listing in listing order, and the id of a track is the side, a dash
  and the 0-based position of its file in the listing itself, where entries without an
  audio extension are skipped but counted. On every leading part of the listing that
  has audio entries only, that position is also the position in the filtered list and
  the track number is the position plus one: the listing 01_song.mp3, 02-track.mp3 on
  side A gives the ids A-0, A-1 and the track numbers 1, 2.
\<close>

theorem scan_ids_follow_listing_position:
  "fst (loadMusicFiles e st) = Inr pl \<Longrightarrow>
   listing e (sideAFolder e) = Inr filesA \<Longrightarrow>
   listing e (sideBFolder e) = Inr filesB \<Longrightarrow>
     map filename (sideA pl) = filter isAudio filesA
     \<and> map filename (sideB pl) = filter isAudio filesB
     \<and> map trackId (sideA pl) = map (mkId ''A'') (audioPositions filesA)
     \<and> map trackId (sideB pl) = map (mkId ''B'') (audioPositions filesB)
     \<and> (\<forall>n \<le> length filesA. (\<forall>f \<in> set (take n filesA). isAudio f) \<longrightarrow>
           take n (map trackId (sideA pl)) = map (mkId ''A'') [0 ..< n]
           \<and> take n (map trackNumber (sideA pl)) = map Suc [0 ..< n])
     \<and> (\<forall>n \<le> length filesB. (\<forall>f \<in> set (take n filesB). isAudio f) \<longrightarrow>
           take n (map trackId (sideB pl)) = map (mkId ''B'') [0 ..< n]
           \<and> take n (map trackNumber (sideB pl)) = map Suc [0 ..< n])"
proof -
  assume ok: "fst (loadMusicFiles e st) = Inr pl"
    and la: "listing e (sideAFolder e) = Inr filesA"
    and lb: "listing e (sideBFolder e) = Inr filesB"
  from loadMusicFiles_listing [OF ok] la lb have
    fa: "map filename (sideA pl) = filter isAudio filesA"
    and fb: "map filename (sideB pl) = filter isAudio filesB"
    and ia: "map trackId (sideA pl) = map (mkId ''A'') (audioPositions filesA)"
    and ib: "map trackId (sideB pl) = map (mkId ''B'') (audioPositions filesB)"
    and na: "map trackNumber (sideA pl) = map Suc (audioPositions filesA)"
    and nb: "map trackNumber (sideB pl) = map Suc (audioPositions filesB)"
    by auto
  have pa: "\<forall>n \<le> length filesA. (\<forall>f \<in> set (take n filesA). isAudio f) \<longrightarrow>
           take n (map trackId (sideA pl)) = map (mkId ''A'') [0 ..< n]
           \<and> take n (map trackNumber (sideA pl)) = map Suc [0 ..< n]"
    using ids_of_audio_prefix [OF ia na] by blast
  have pb: "\<forall>n \<le> length filesB. (\<forall>f \<in> set (take n filesB). isAudio f) \<longrightarrow>
           take n (map trackId (sideB pl)) = map (mkId ''B'') [0 ..< n]
           \<and> take n (map trackNumber (sideB pl)) = map Suc [0 ..< n]"
    using ids_of_audio_prefix [OF ib nb] by blast
  from fa fb ia ib pa pb show ?thesis by blast
qed

theorem scan_ids_follow_listing_position_witness:
  "fst (loadMusicFiles (exampleEnv [''01_song.mp3'', ''02-track.mp3''] [] statOk noTags)
          initialState)
     = Inr \<lparr> sideA =
               [\<lparr> trackId = ''A-0'', title = ''01 song'', artist = ''Unknown Artist'',
                  album = ''Unknown Album'', filename = ''01_song.mp3'',
                  url = ''/musics/side a/01_song.mp3'', albumCover = None,
                  fileSize = 1000, trackNumber = 1 \<rparr>,
                \<lparr> trackId = ''A-1'', title = ''02 track'', artist = ''Unknown Artist'',
                  album = ''Unknown Album'', filename = ''02-track.mp3'',
                  url = ''/musics/side a/02-track.mp3'', albumCover = None,
                  fileSize = 1000, trackNumber = 2 \<rparr>],
             sideB = [] \<rparr>
   \<and> listing (exampleEnv [''01_song.mp3'', ''02-track.mp3''] [] statOk noTags)
         ''/srv/musics/side a'' = Inr [''01_song.mp3'', ''02-track.mp3'']
   \<and> listing (exampleEnv [''01_song.mp3'', ''02-track.mp3''] [] statOk noTags)
         ''/srv/musics/side b'' = Inr []
   \<and> isAudio ''01_song.mp3'' \<and> isAudio ''02-track.mp3''
   \<and> map (mkId ''A'') [0 ..< 2] = [''A-0'', ''A-1'']
   \<and> map Suc [0 ..< 2] = [1, 2]"
proof -
  let ?e = "exampleEnv [''01_song.mp3'', ''02-track.mp3''] [] statOk noTags"
  let ?pl = "\<lparr> sideA =
               [\<lparr> trackId = ''A-0'', title = ''01 song'', artist = ''Unknown Artist'',
                  album = ''Unknown Album'', filename = ''01_song.mp3'',
                  url = ''/musics/side a/01_song.mp3'', albumCover = None,
                  fileSize = 1000, trackNumber = 1 \<rparr>,
                \<lparr> trackId = ''A-1'', title = ''02 track'', artist = ''Unknown Artist'',
                  album = ''Unknown Album'', filename = ''02-track.mp3'',
                  url = ''/musics/side a/02-track.mp3'', albumCover = None,
                  fileSize = 1000, trackNumber = 2 \<rparr>],
             sideB = [] \<rparr>"
  have fa: "sideAFolder ?e = ''/srv/musics/side a''" and fb: "sideBFolder ?e = ''/srv/musics/side b''"
    by (simp_all add: sideAFolder_def sideBFolder_def musicFolder_def path_join_def exampleEnv_def)
  have ok: "fst (loadMusicFiles ?e initialState) = Inr ?pl" by (simp add: scan_eval)
  have la: "listing ?e (sideAFolder ?e) = Inr [''01_song.mp3'', ''02-track.mp3'']"
    unfolding fa by (simp add: listing_def exampleEnv_def)
  have lb: "listing ?e (sideBFolder ?e) = Inr []"
    unfolding fb by (simp add: listing_def exampleEnv_def)
  have au: "isAudio ''01_song.mp3''" "isAudio ''02-track.mp3''"
    by (simp_all add: isAudio_def extname_def toLowerCase_def toLowerChar_def audioExtensions_def)
  from scan_ids_follow_listing_position [OF ok la lb]
  have "\<forall>n \<le> length [''01_song.mp3'', ''02-track.mp3''].
          (\<forall>f \<in> set (take n [''01_song.mp3'', ''02-track.mp3'']). isAudio f) \<longrightarrow>
           take n (map trackId (sideA ?pl)) = map (mkId ''A'') [0 ..< n]
           \<and> take n (map trackNumber (sideA ?pl)) = map Suc [0 ..< n]"
    by blast
  from this [rule_format, of 2] au have
    "map (mkId ''A'') [0 ..< 2] = [''A-0'', ''A-1''] \<and> map Suc [0 ..< 2] = [1, 2]"
    by (auto simp add: eq_commute)
  with ok la lb au show ?thesis unfolding fa fb by simp
qed

theorem filtered_position_ids_counterexample:
  "fst (loadMusicFiles
         (exampleEnv [''notes.txt'', ''01_song.mp3'', ''cover.jpg'', ''02-track.mp3''] []
            statOk noTags) initialState)
     = Inr \<lparr> sideA =
             [\<lparr> trackId = ''A-1'', title = ''01 song'', artist = ''Unknown Artist'',
                album = ''Unknown Album'', filename = ''01_song.mp3'',
                url = ''/musics/side a/01_song.mp3'', albumCover = None,
                fileSize = 1000, trackNumber = 2 \<rparr>,
              \<lparr> trackId = ''A-3'', title = ''02 track'', artist = ''Unknown Artist'',
                album = ''Unknown Album'', filename = ''02-track.mp3'',
                url = ''/musics/side a/02-track.mp3'', albumCover = None,
                fileSize = 1000, trackNumber = 4 \<rparr>],
           sideB = [] \<rparr>
   \<and> filter isAudio [''notes.txt'', ''01_song.mp3'', ''cover.jpg'', ''02-track.mp3'']
       = [''01_song.mp3'', ''02-track.mp3'']
   \<and> [''A-1'', ''A-3''] \<noteq> map (mkId ''A'') [0 ..< 2]
   \<and> [2, 4] \<noteq> map Suc [0 ..< 2]"
  by (simp add: scan_eval upt_conv_Cons)

lemma other_routes_respond:
  "r \<noteq> GetHealth \<Longrightarrow> \<exists>code body. fst (handle e r st) = Responded code body"
  by (cases r)
     (auto simp add: get_playlists_def get_playlists_side_def get_session_def post_session_def
        put_tape_mode_def put_volume_def post_refresh_def post_session_reset_def Let_def
        split: prod.splits sum.splits)

lemma health_escapes_iff:
  "fst (handle e GetHealth st) = Escaped err \<longleftrightarrow> fst (loadMusicFiles e st) = Inl err"
  by (auto simp add: get_health_def split: prod.splits sum.splits)

text \<open>
  C2. GET /api/health has no \<open>try\<close> around the scan: when \<open>stat\<close> fails on an audio
  entry, the failure leaves the handler and no response is sent, while GET /api/playlists
  answers the same failure with status 500.
\<close>

theorem health_lets_scan_failure_escape:
  "handle (exampleEnv [''x.mp3''] [] statFails noTags) GetHealth initialState
     = (Escaped FsError, initialState)
   \<and> statusOf (fst (handle (exampleEnv [''x.mp3''] [] statFails noTags) GetHealth initialState))
       = None
   \<and> handle (exampleEnv [''x.mp3''] [] statFails noTags) GetPlaylists initialState
       = (Responded 500 (ErrorBody ''Failed to load playlists''), initialState)"
  by (simp add: get_health_def get_playlists_def statusOf_def scan_eval)


lemma exampleEnv_entryNames:
  "\<forall>f \<in> set filesA \<union> set filesB. CHR ''/'' \<notin> set f \<Longrightarrow>
     entryNames (exampleEnv filesA filesB stat parse)"
  by (auto simp add: entryNames_def exampleEnv_def split: if_splits)


theorem track_ids_unique_and_stable_witness:
  "fst (loadMusicFiles (exampleEnv [''01_song.mp3'', ''notes.txt'', ''02-track.mp3''] []
          statOk noTags) initialState)
     = Inr \<lparr> sideA =
             [\<lparr> trackId = ''A-0'', title = ''01 song'', artist = ''Unknown Artist'',
                album = ''Unknown Album'', filename = ''01_song.mp3'',
                url = ''/musics/side a/01_song.mp3'', albumCover = None,
                fileSize = 1000, trackNumber = 1 \<rparr>,
              \<lparr> trackId = ''A-2'', title = ''02 track'', artist = ''Unknown Artist'',
                album = ''Unknown Album'', filename = ''02-track.mp3'',
                url = ''/musics/side a/02-track.mp3'', albumCover = None,
                fileSize = 1000, trackNumber = 3 \<rparr>],
           sideB = [] \<rparr>
   \<and> distinct [''A-0'', ''A-2'']"
proof -
  let ?pl = "\<lparr> sideA =
             [\<lparr> trackId = ''A-0'', title = ''01 song'', artist = ''Unknown Artist'',
                album = ''Unknown Album'', filename = ''01_song.mp3'',
                url = ''/musics/side a/01_song.mp3'', albumCover = None,
                fileSize = 1000, trackNumber = 1 \<rparr>,
              \<lparr> trackId = ''A-2'', title = ''02 track'', artist = ''Unknown Artist'',
                album = ''Unknown Album'', filename = ''02-track.mp3'',
                url = ''/musics/side a/02-track.mp3'', albumCover = None,
                fileSize = 1000, trackNumber = 3 \<rparr>],
           sideB = [] \<rparr>"
  have h: "fst (loadMusicFiles (exampleEnv [''01_song.mp3'', ''notes.txt'', ''02-track.mp3''] []
          statOk noTags) initialState) = Inr ?pl"
    by (simp add: scan_eval)
  from track_ids_unique_and_stable [OF h] have "distinct (map trackId (sideA ?pl @ sideB ?pl))"
    by (rule conjunct1)
  with h show ?thesis by simp
qed

lemma track_names_no_sep:
  assumes names: "entryNames e" and ok: "fst (loadMusicFiles e st) = Inr pl"
    and t: "t \<in> set (sideA pl) \<or> t \<in> set (sideB pl)"
  shows "CHR ''/'' \<notin> set (filename t)"
proof -
  from loadMusicFiles_listing [OF ok] obtain filesA filesB where
    la: "listing e (sideAFolder e) = Inr filesA" and lb: "listing e (sideBFolder e) = Inr filesB"
    and fa: "map filename (sideA pl) = filter isAudio filesA"
    and fb: "map filename (sideB pl) = filter isAudio filesB"
    by blast
  have na: "\<forall>f \<in> set filesA. CHR ''/'' \<notin> set f"
    using la entryNames_listing [OF names, of "sideAFolder e" filesA]
    by (auto simp add: listing_def split: if_splits)
  have nb: "\<forall>f \<in> set filesB. CHR ''/'' \<notin> set f"
    using lb entryNames_listing [OF names, of "sideBFolder e" filesB]
    by (auto simp add: listing_def split: if_splits)
  from t show ?thesis
  proof
    assume "t \<in> set (sideA pl)"
    then have "filename t \<in> set (map filename (sideA pl))" by simp
    with fa na show ?thesis by simp
  next
    assume "t \<in> set (sideB pl)"
    then have "filename t \<in> set (map filename (sideB pl))" by simp
    with fb nb show ?thesis by simp
  qed
qed

lemma loadMusicFiles_track:
  assumes names: "entryNames e" and ok: "fst (loadMusicFiles e st) = Inr pl"
    and t: "t \<in> set (sideA pl) \<and> folder = sideAFolder e \<or> t \<in> set (sideB pl) \<and> folder = sideBFolder e"
  shows "scanned e st (snd (loadMusicFiles e st)) folder t"
  using loadMusicFiles_scanned [OF ok names] t by blast

lemma orElse_nonempty: "a \<noteq> [] \<Longrightarrow> orElse a d = a"
  by (simp add: orElse_def)

lemma orElse_same: "a = [] \<Longrightarrow> d = [] \<Longrightarrow> orElse a d = a"
  by (simp add: orElse_def)

lemma cached_track_exact:
  assumes ok: "cacheOk st" and hit: "metadataCache st (path_join folder (filename t)) = Some c"
    and nosep: "CHR ''/'' \<notin> set (filename t)"
    and s: "scanned e st st' folder t"
  shows "title t = c_title c \<and> artist t = c_artist c \<and> album t = c_album c
         \<and> albumCover t = c_albumCover c"
proof -
  from ok hit have a: "c_artist c \<noteq> []" and l: "c_album c \<noteq> []"
    and ti: "c_title c = [] \<longrightarrow> defaultTitle (lastSegment (path_join folder (filename t))) = []"
    unfolding cacheOk_def by blast+
  from ti lastSegment_path_join [OF nosep, of folder]
  have ti': "c_title c = [] \<longrightarrow> defaultTitle (filename t) = []" by simp
  have "orElse (c_title c) (defaultTitle (filename t)) = c_title c"
    using ti' by (cases "c_title c = []") (simp_all add: orElse_def)
  with s hit a l show ?thesis
    by (simp add: scanned_def orElse_nonempty)
qed













lemma defaultTitle_examples:
  "defaultTitle ''01_song.mp3'' = ''01 song''"
  "defaultTitle ''02-track.mp3'' = ''02 track''"
  "defaultTitle ([CHR 0xC2, CHR 0xA0] @ ''song _.MP3'') = ''song''"
  by (simp_all add: defaultTitle_def trim_def trimStart_def trimEnd_def whiteSpaces_def
        stripPrefixes.simps replaceAll_def basename_def extname_def suffix_to_prefix)






lemma refresh_parses_every_file:
  assumes names: "entryNames e"
    and ok: "statusOf (fst (handle e PostRefresh st)) = Some 200"
    and l: "listing e (sideAFolder e) = Inr files \<and> folder = sideAFolder e
            \<or> listing e (sideBFolder e) = Inr files \<and> folder = sideBFolder e"
    and f: "f \<in> set files" "isAudio f"
  shows "ParseFile (path_join folder f) \<in> set (newCalls st (snd (handle e PostRefresh st)))"
proof -
  let ?st0 = "st\<lparr> metadataCache := Map.empty \<rparr>"
  from ok obtain pl where pl: "fst (loadMusicFiles e ?st0) = Inr pl"
    by (cases "loadMusicFiles e ?st0"; cases "fst (loadMusicFiles e ?st0)")
       (auto simp add: post_refresh_def statusOf_def)
  have st': "snd (handle e PostRefresh st) = snd (loadMusicFiles e ?st0)"
    by (simp add: scan_handlers_state)
  from loadMusicFiles_listing [OF pl] obtain filesA filesB where
    la: "listing e (sideAFolder e) = Inr filesA" and lb: "listing e (sideBFolder e) = Inr filesB"
    and fa: "map filename (sideA pl) = filter isAudio filesA"
    and fb: "map filename (sideB pl) = filter isAudio filesB"
    by blast
  from l f la lb fa fb have "(f \<in> set (map filename (sideA pl)) \<and> folder = sideAFolder e)
      \<or> (f \<in> set (map filename (sideB pl)) \<and> folder = sideBFolder e)"
    by auto
  then obtain t where t: "t \<in> set (sideA pl) \<and> folder = sideAFolder e
                           \<or> t \<in> set (sideB pl) \<and> folder = sideBFolder e"
    and ft: "filename t = f" by auto
  from loadMusicFiles_track [OF names pl t]
  have "ParseFile (path_join folder f) \<in> set (newCalls ?st0 (snd (loadMusicFiles e ?st0)))"
    by (simp add: scanned_def ft)
  then show ?thesis by (simp add: scan_handlers_state newCalls_def)
qed

text \<open>
  C5. In every state the server can reach: a request other than POST /api/refresh, and
  every scan, leaves each cache entry exactly as it is; a scan that finds an entry for a
  file's path returns the entry's title, artist, album and cover as they were stored,
  and does not parse that file; POST /api/refresh scans from an empty cache, and when
  it succeeds every audio file of both listings has been parsed during the request.
\<close>

theorem cache_entries_reused_until_refresh:
  assumes reach: "reachable st" and names: "entryNames e"
  shows
    "(r \<noteq> PostRefresh \<and> metadataCache st p = Some c
        \<longrightarrow> metadataCache (snd (handle e r st)) p = Some c)
     \<and> (metadataCache st p = Some c \<longrightarrow> metadataCache (snd (loadMusicFiles e st)) p = Some c)
     \<and> (fst (loadMusicFiles e st) = Inr pl
          \<and> (t \<in> set (sideA pl) \<and> folder = sideAFolder e
               \<or> t \<in> set (sideB pl) \<and> folder = sideBFolder e)
          \<and> metadataCache st (path_join folder (filename t)) = Some c'
        \<longrightarrow> title t = c_title c' \<and> artist t = c_artist c' \<and> album t = c_album c'
            \<and> albumCover t = c_albumCover c'
            \<and> ParseFile (path_join folder (filename t))
                 \<notin> set (newCalls st (snd (loadMusicFiles e st))))
     \<and> snd (handle e PostRefresh st) = snd (loadMusicFiles e (st\<lparr> metadataCache := Map.empty \<rparr>))
     \<and> (statusOf (fst (handle e PostRefresh st)) = Some 200
          \<and> (listing e (sideAFolder e) = Inr files \<and> folder' = sideAFolder e
               \<or> listing e (sideBFolder e) = Inr files \<and> folder' = sideBFolder e)
          \<and> f \<in> set files \<and> isAudio f
        \<longrightarrow> ParseFile (path_join folder' f) \<in> set (newCalls st (snd (handle e PostRefresh st))))"
proof -
  have kept: "r \<noteq> PostRefresh \<and> metadataCache st p = Some c
        \<longrightarrow> metadataCache (snd (handle e r st)) p = Some c"
    using handle_keeps_entries [OF names] by blast
  have scan_kept: "metadataCache st p = Some c
        \<longrightarrow> metadataCache (snd (loadMusicFiles e st)) p = Some c"
    using loadMusicFiles_grows [OF names, of st] by (blast dest: grows_kept)
  have reuse: "title t = c_title c' \<and> artist t = c_artist c' \<and> album t = c_album c'
            \<and> albumCover t = c_albumCover c'
            \<and> ParseFile (path_join folder (filename t))
                 \<notin> set (newCalls st (snd (loadMusicFiles e st)))"
    if ok: "fst (loadMusicFiles e st) = Inr pl"
      and t: "t \<in> set (sideA pl) \<and> folder = sideAFolder e
               \<or> t \<in> set (sideB pl) \<and> folder = sideBFolder e"
      and hit: "metadataCache st (path_join folder (filename t)) = Some c'"
  proof -
    from t have "t \<in> set (sideA pl) \<or> t \<in> set (sideB pl)" by blast
    from track_names_no_sep [OF names ok this] have nosep: "CHR ''/'' \<notin> set (filename t)" .
    from cached_track_exact [OF reachable_cacheOk [OF reach] hit nosep
           loadMusicFiles_track [OF names ok t]]
    have fields: "title t = c_title c' \<and> artist t = c_artist c' \<and> album t = c_album c'
            \<and> albumCover t = c_albumCover c'" .
    have "ParseFile (path_join folder (filename t))
            \<notin> set (newCalls st (snd (loadMusicFiles e st)))"
      using grows_parsed_only_missing [OF loadMusicFiles_grows [OF names, of st]] hit by force
    with fields show ?thesis by simp
  qed
  have refresh_state:
    "snd (handle e PostRefresh st) = snd (loadMusicFiles e (st\<lparr> metadataCache := Map.empty \<rparr>))"
    by (simp add: scan_handlers_state)
  have refresh: "statusOf (fst (handle e PostRefresh st)) = Some 200
          \<and> (listing e (sideAFolder e) = Inr files \<and> folder' = sideAFolder e
               \<or> listing e (sideBFolder e) = Inr files \<and> folder' = sideBFolder e)
          \<and> f \<in> set files \<and> isAudio f
        \<longrightarrow> ParseFile (path_join folder' f) \<in> set (newCalls st (snd (handle e PostRefresh st)))"
    using refresh_parses_every_file [OF names] by blast
  show ?thesis
    using kept scan_kept reuse refresh_state refresh by blast
qed

lemma exampleCachedState_reachable: "reachable exampleCachedState"
  unfolding exampleCachedState_def
  by (rule reachable.startup [OF reachable.start]) (rule exampleEnv_entryNames, simp)

theorem cache_entries_reused_until_refresh_witness:
  "reachable exampleCachedState
   \<and> entryNames (exampleEnv [''01_song.mp3''] [] statOk noTags)
   \<and> metadataCache exampleCachedState ''/srv/musics/side a/01_song.mp3''
       = Some \<lparr> c_title = ''Song'', c_artist = ''Band'', c_album = ''Unknown Album'',
                 c_albumCover = Some ''/covers/A-0.jpg'' \<rparr>
   \<and> fst (loadMusicFiles (exampleEnv [''01_song.mp3''] [] statOk noTags) exampleCachedState)
       = Inr \<lparr> sideA =
                 [\<lparr> trackId = ''A-0'', title = ''Song'', artist = ''Band'',
                    album = ''Unknown Album'', filename = ''01_song.mp3'',
                    url = ''/musics/side a/01_song.mp3'',
                    albumCover = Some ''/covers/A-0.jpg'',
                    fileSize = 1000, trackNumber = 1 \<rparr>],
               sideB = [] \<rparr>
   \<and> ParseFile ''/srv/musics/side a/01_song.mp3''
       \<notin> set (newCalls exampleCachedState
                (snd (loadMusicFiles (exampleEnv [''01_song.mp3''] [] statOk noTags)
                       exampleCachedState)))
   \<and> statusOf (fst (handle (exampleEnv [''01_song.mp3''] [] statOk noTags) PostRefresh
                      exampleCachedState)) = Some 200
   \<and> ParseFile ''/srv/musics/side a/01_song.mp3''
       \<in> set (newCalls exampleCachedState
                (snd (handle (exampleEnv [''01_song.mp3''] [] statOk noTags) PostRefresh
                       exampleCachedState)))"
proof -
  let ?e = "exampleEnv [''01_song.mp3''] [] statOk noTags"
  let ?p = "''/srv/musics/side a/01_song.mp3''"
  let ?c = "\<lparr> c_title = ''Song'', c_artist = ''Band'', c_album = ''Unknown Album'',
                 c_albumCover = Some ''/covers/A-0.jpg'' \<rparr>"
  let ?t = "\<lparr> trackId = ''A-0'', title = ''Song'', artist = ''Band'',
                    album = ''Unknown Album'', filename = ''01_song.mp3'',
                    url = ''/musics/side a/01_song.mp3'',
                    albumCover = Some ''/covers/A-0.jpg'',
                    fileSize = 1000, trackNumber = 1 \<rparr>"
  let ?pl = "\<lparr> sideA = [?t], sideB = [] \<rparr>"
  have n: "entryNames ?e" by (rule exampleEnv_entryNames) simp
  have hit: "metadataCache exampleCachedState ?p = Some ?c"
    by (simp add: exampleCachedState_def scan_eval)
  have scan: "fst (loadMusicFiles ?e exampleCachedState) = Inr ?pl"
    by (simp add: exampleCachedState_def scan_eval)
  have ok: "statusOf (fst (handle ?e PostRefresh exampleCachedState)) = Some 200"
    by (simp add: exampleCachedState_def post_refresh_def statusOf_def scan_eval)
  have l: "listing ?e (sideAFolder ?e) = Inr [''01_song.mp3'']"
    by (simp add: listing_def exampleEnv_def sideAFolder_def musicFolder_def path_join_def)
  have a: "isAudio ''01_song.mp3''"
    by (simp add: isAudio_def extname_def toLowerCase_def toLowerChar_def audioExtensions_def)
  have fa: "sideAFolder ?e = ''/srv/musics/side a''"
    by (simp add: sideAFolder_def musicFolder_def path_join_def exampleEnv_def)
  have pj: "path_join ''/srv/musics/side a'' ''01_song.mp3'' = ?p"
    by (simp add: path_join_def)
  note inst = cache_entries_reused_until_refresh [OF exampleCachedState_reachable n,
      of GetSession ?p ?c ?pl ?t "''/srv/musics/side a''" ?c "[''01_song.mp3'']"
         "''/srv/musics/side a''" "''01_song.mp3''"]
  note reuse = inst [THEN conjunct2, THEN conjunct2, THEN conjunct1, THEN mp]
  note refresh = inst [THEN conjunct2, THEN conjunct2, THEN conjunct2, THEN conjunct2, THEN mp]
  have pre1: "fst (loadMusicFiles ?e exampleCachedState) = Inr ?pl
      \<and> (?t \<in> set (sideA ?pl) \<and> ''/srv/musics/side a'' = sideAFolder ?e
           \<or> ?t \<in> set (sideB ?pl) \<and> ''/srv/musics/side a'' = sideBFolder ?e)
      \<and> metadataCache exampleCachedState (path_join ''/srv/musics/side a'' (filename ?t)) = Some ?c"
    using scan hit fa pj by simp
  have pre2: "statusOf (fst (handle ?e PostRefresh exampleCachedState)) = Some 200
      \<and> (listing ?e (sideAFolder ?e) = Inr [''01_song.mp3'']
             \<and> ''/srv/musics/side a'' = sideAFolder ?e
           \<or> listing ?e (sideBFolder ?e) = Inr [''01_song.mp3'']
             \<and> ''/srv/musics/side a'' = sideBFolder ?e)
      \<and> ''01_song.mp3'' \<in> set [''01_song.mp3''] \<and> isAudio ''01_song.mp3''"
    using ok l a fa by simp
  from reuse [OF pre1] have notparsed:
    "ParseFile ?p \<notin> set (newCalls exampleCachedState (snd (loadMusicFiles ?e exampleCachedState)))"
    using pj by simp
  from refresh [OF pre2] have parsed:
    "ParseFile ?p \<in> set (newCalls exampleCachedState (snd (handle ?e PostRefresh exampleCachedState)))"
    using pj by simp
  from exampleCachedState_reachable n hit scan notparsed ok parsed show ?thesis
    by (intro conjI)
qed

section \<open>Switching sides in the player\<close>

lemma saveSession_keeps:
  "ui_currentSide (saveSession br s) = ui_currentSide s"
  "currentTrackIndex (saveSession br s) = currentTrackIndex s"
  by (simp_all add: saveSession_def Let_def)

lemma updateTrackList_keeps:
  "ui_currentSide (updateTrackList s) = ui_currentSide s"
  "currentTrackIndex (updateTrackList s) = currentTrackIndex s"
  "ui_playlists (updateTrackList s) = ui_playlists s"
  by (simp_all add: updateTrackList_def Let_def)

lemma updateSideUI_keeps:
  "ui_currentSide (updateSideUI s) = ui_currentSide s"
  "currentTrackIndex (updateSideUI s) = currentTrackIndex s"
  "ui_playlists (updateSideUI s) = ui_playlists s"
  by (simp_all add: updateSideUI_def)

lemma loadTrack_side: "ui_currentSide (loadTrack br index restoreTime s) = ui_currentSide s"
  by (simp add: loadTrack_def Let_def saveSession_keeps updateTrackList_keeps)

lemma loadTrack_index:
  "currentTrackIndex (loadTrack br index restoreTime s)
     = (if index < 0 \<or> index \<ge> int (length (getCurrentPlaylist s)) then currentTrackIndex s
        else index)"
  by (simp add: loadTrack_def Let_def saveSession_keeps updateTrackList_keeps)

lemma switchSide_blocked:
  "truthy (ui_tapeMode s) \<and> ui_isPlaying s \<Longrightarrow>
     switchSide br side s = s\<lparr> statusBar := ''Stop playback to flip tape'' \<rparr>"
  by (simp add: switchSide_def setStatus_def)

lemma switchSide_free:
  "\<not> (truthy (ui_tapeMode s) \<and> ui_isPlaying s) \<Longrightarrow>
     ui_currentSide (switchSide br side s) = side \<and> currentTrackIndex (switchSide br side s) = 0"
  by (auto simp add: switchSide_def Let_def saveSession_keeps updateTrackList_keeps
        updateSideUI_keeps loadTrack_side loadTrack_index)

text \<open>
  C8. While tape mode is on and a track is playing, \<open>switchSide\<close> changes nothing but the
  status line: the side, the track index and every other variable of the player stay as
  they are. Otherwise it sets the side to its argument and the track index to 0.
\<close>

theorem switchSide_blocked_while_tape_plays:
  "(truthy (ui_tapeMode s) \<and> ui_isPlaying s \<longrightarrow>
      switchSide br side s = s\<lparr> statusBar := ''Stop playback to flip tape'' \<rparr>
      \<and> ui_currentSide (switchSide br side s) = ui_currentSide s
      \<and> currentTrackIndex (switchSide br side s) = currentTrackIndex s
      \<and> ui_isPlaying (switchSide br side s) = ui_isPlaying s
      \<and> ui_tapeMode (switchSide br side s) = ui_tapeMode s
      \<and> savedTimestamp (switchSide br side s) = savedTimestamp s
      \<and> audioPlayer (switchSide br side s) = audioPlayer s
      \<and> sent (switchSide br side s) = sent s)
   \<and> (\<not> (truthy (ui_tapeMode s) \<and> ui_isPlaying s) \<longrightarrow>
      ui_currentSide (switchSide br side s) = side
      \<and> currentTrackIndex (switchSide br side s) = 0)"
  using switchSide_free [of s br side] by (simp add: switchSide_blocked)

theorem switchSide_blocked_while_tape_plays_witness:
  "truthy (ui_tapeMode exampleUi) \<and> ui_isPlaying exampleUi
   \<and> ui_currentSide (switchSide exampleBrowser (JStr ''B'') exampleUi) = JStr ''A''
   \<and> currentTrackIndex (switchSide exampleBrowser (JStr ''B'') exampleUi) = 1
   \<and> \<not> (truthy (ui_tapeMode (exampleUi\<lparr> ui_isPlaying := False \<rparr>))
          \<and> ui_isPlaying (exampleUi\<lparr> ui_isPlaying := False \<rparr>))
   \<and> ui_currentSide (switchSide exampleBrowser (JStr ''B'') (exampleUi\<lparr> ui_isPlaying := False \<rparr>))
       = JStr ''B''
   \<and> currentTrackIndex (switchSide exampleBrowser (JStr ''B'') (exampleUi\<lparr> ui_isPlaying := False \<rparr>))
       = 0"
  using
    switchSide_blocked_while_tape_plays [of exampleUi exampleBrowser "JStr ''B''"]
    switchSide_blocked_while_tape_plays
      [of "exampleUi\<lparr> ui_isPlaying := False \<rparr>" exampleBrowser "JStr ''B''"]
  by (simp add: exampleUi_def)

end
